theory Spec2Isabelle
  imports Complex_Main "HOL-Library.Sublist" "HOL-Library.Char_ord" "HOL-Library.List_Lexorder"
begin

section \<open>Python values shared by the four readers of kkpy.io\<close>

text \<open>
  Every raise of the source is a value: the exception classes that the four readers can
  reach, with the offending name where Python reports one.
\<close>

datatype error =
    NameError string
  | UnboundLocalError string
  | TypeError
  | ValueError
  | IndexError
  | KeyError string
  | AttributeError string
  | AxisError
  | OSError

text \<open>
  A float cell of a numpy array: a finite value or NaN. Finite values are idealised as
  reals (no rounding, no infinities); NaN keeps its IEEE behaviour: every comparison
  with NaN is false and arithmetic on NaN gives NaN.
\<close>

datatype pyfloat = Fin real | NaN

fun isnan :: "pyfloat \<Rightarrow> bool" where
  "isnan NaN = True"
| "isnan (Fin x) = False"

fun f_le :: "pyfloat \<Rightarrow> pyfloat \<Rightarrow> bool" where
  "f_le (Fin x) (Fin y) = (x \<le> y)"
| "f_le _ _ = False"

fun f_lt :: "pyfloat \<Rightarrow> pyfloat \<Rightarrow> bool" where
  "f_lt (Fin x) (Fin y) = (x < y)"
| "f_lt _ _ = False"

fun f_add :: "pyfloat \<Rightarrow> real \<Rightarrow> pyfloat" where
  "f_add (Fin x) c = Fin (x + c)"
| "f_add NaN c = NaN"

fun f_sub :: "pyfloat \<Rightarrow> real \<Rightarrow> pyfloat" where
  "f_sub (Fin x) c = Fin (x - c)"
| "f_sub NaN c = NaN"

fun f_div :: "pyfloat \<Rightarrow> real \<Rightarrow> pyfloat" where
  "f_div (Fin x) c = Fin (x / c)"
| "f_div NaN c = NaN"

text \<open>Sequencing of fallible steps: the first raise ends the call.\<close>

definition bindE :: "error + 'a \<Rightarrow> ('a \<Rightarrow> error + 'b) \<Rightarrow> error + 'b" where
  "bindE m f = (case m of Inl e \<Rightarrow> Inl e | Inr x \<Rightarrow> f x)"

fun mapE :: "('a \<Rightarrow> error + 'b) \<Rightarrow> 'a list \<Rightarrow> error + 'b list" where
  "mapE f [] = Inr []"
| "mapE f (x # xs) =
     (case f x of
        Inl e \<Rightarrow> Inl e
      | Inr y \<Rightarrow> (case mapE f xs of Inl e \<Rightarrow> Inl e | Inr ys \<Rightarrow> Inr (y # ys)))"

text \<open>
  Python's \<open>a in s\<close> on two strings: \<open>a\<close> occurs in \<open>s\<close> as a contiguous run of
  characters. The empty string occurs in every string.
\<close>

fun py_in :: "string \<Rightarrow> string \<Rightarrow> bool" where
  "py_in a [] = (a = [])"
| "py_in a (c # s) = (prefix a (c # s) \<or> py_in a s)"

text \<open>
  A two-dimensional numpy array: its rows, and the length of each row (kept apart so
  that an array with no rows still has a second dimension). numpy arrays are
  rectangular: \<open>arr2_ok\<close>.
\<close>

record 'a arr2 =
  ncols :: nat
  rows :: "'a list list"

definition arr2_ok :: "'a arr2 \<Rightarrow> bool" where
  "arr2_ok a = list_all (\<lambda>r. length r = ncols a) (rows a)"

definition nrows :: "'a arr2 \<Rightarrow> nat" where
  "nrows a = length (rows a)"

definition shape :: "'a arr2 \<Rightarrow> nat \<times> nat" where
  "shape a = (nrows a, ncols a)"

definition at2 :: "'a arr2 \<Rightarrow> nat \<Rightarrow> nat \<Rightarrow> 'a" where
  "at2 a i j = rows a ! i ! j"

definition map_arr2 :: "('a \<Rightarrow> 'b) \<Rightarrow> 'a arr2 \<Rightarrow> 'b arr2" where
  "map_arr2 f a = \<lparr>ncols = ncols a, rows = map (map f) (rows a)\<rparr>"

text \<open>\<open>a.T\<close> on a two-dimensional array.\<close>

definition transpose_arr2 :: "'a arr2 \<Rightarrow> 'a arr2" where
  "transpose_arr2 a =
     \<lparr>ncols = nrows a, rows = map (\<lambda>j. map (\<lambda>r. r ! j) (rows a)) [0..<ncols a]\<rparr>"

section \<open>read_dem\<close>

text \<open>
  What \<open>wrl.georef.extract_raster_dataset\<close> gives for an opened single-band raster:
  the elevation band, the coordinate grid (\<open>coord[:,:,0]\<close> and \<open>coord[:,:,1]\<close>) and
  the spatial reference. The raster library is a parameter of the model:
  \<open>open_raster\<close> maps a path to the raster stored there, or to the error it raises.
\<close>

record raster =
  r_dem :: "pyfloat arr2"
  r_lon :: "pyfloat arr2"
  r_lat :: "pyfloat arr2"
  r_proj :: string

text \<open>What the call does to the outside: the rasters it opens and the lines it prints.\<close>

datatype event = Opened string | Printed string

definition pyeongchang_tif :: string where
  "pyeongchang_tif = ''/disk/WORKSPACE/kwonil/SRTM3_V2.1/TIF/pyeongchang_90m.tif''"

definition korea_tif :: string where
  "korea_tif = ''/disk/WORKSPACE/kwonil/SRTM3_V2.1/TIF/korea_90m.tif''"

text \<open>
  Lines 286-294: the binding of the local \<open>ds\<close>. The result is the trace and either the
  error of \<open>open_raster\<close> or the binding of \<open>ds\<close>, \<open>None\<close> when no branch assigned it.
\<close>

definition open_ds :: "(string \<Rightarrow> error + raster) \<Rightarrow> string \<Rightarrow> event list \<times> (error + raster option)" where
  "open_ds open_raster path =
     ([Opened path], case open_raster path of Inl e \<Rightarrow> Inl e | Inr r \<Rightarrow> Inr (Some r))"

definition bind_ds ::
  "(string \<Rightarrow> error + raster) \<Rightarrow> string option \<Rightarrow> string \<Rightarrow> event list \<times> (error + raster option)" where
  "bind_ds open_raster file area =
     (case file of
        Some f \<Rightarrow> open_ds open_raster f
      | None \<Rightarrow>
          if py_in area ''pyeongchang'' then open_ds open_raster pyeongchang_tif
          else if py_in area ''korea'' then open_ds open_raster korea_tif
          else ([Printed ''Please check area argument''], Inr None))"

text \<open>Lines 299-301: \<open>astype(float)\<close>, \<open>dem[dem <= 0] = np.nan\<close>, \<open>dem.T\<close>.\<close>

definition mask_nonpositive :: "pyfloat \<Rightarrow> pyfloat" where
  "mask_nonpositive v = (if f_le v (Fin 0) then NaN else v)"

definition dem_grid :: "pyfloat arr2 \<Rightarrow> pyfloat arr2" where
  "dem_grid raw = transpose_arr2 (map_arr2 mask_nonpositive raw)"

type_synonym dem_result = "pyfloat arr2 \<times> pyfloat arr2 \<times> pyfloat arr2 \<times> string"

definition read_dem ::
  "(string \<Rightarrow> error + raster) \<Rightarrow> string option \<Rightarrow> string \<Rightarrow> event list \<times> (error + dem_result)" where
  "read_dem open_raster file area =
     (case bind_ds open_raster file area of
        (tr, Inl e) \<Rightarrow> (tr, Inl e)
      | (tr, Inr None) \<Rightarrow> (tr, Inl (UnboundLocalError ''ds''))
      | (tr, Inr (Some ds)) \<Rightarrow> (tr, Inr (dem_grid (r_dem ds), r_lon ds, r_lat ds, r_proj ds)))"

text \<open>The specification's reading of the membership test, for comparison with \<open>py_in\<close>.\<close>

definition contiguous_substring :: "string \<Rightarrow> string \<Rightarrow> bool" where
  "contiguous_substring a s = (\<exists>p q. s = p @ a @ q)"

section \<open>Names the module binds\<close>

text \<open>
  The readers refer to module-level names that the import block (lines 16-21: \<open>np\<close>,
  \<open>datetime\<close>, \<open>glob\<close>, \<open>scipy\<close>, \<open>pyart\<close>, \<open>wrl\<close>) does not bind. Those names
  are parameters of the model: each is either unbound, so that its first use raises
  NameError, or bound to a value of the type its use expects. \<open>module_globals\<close> is the
  binding state that the source file itself produces.
\<close>

record py_globals =
  g_aws_dir :: "string option"
  g_YYYYMMDD :: "string option"
  g_names :: "string list option"
  g_pd :: bool
  g_os :: bool
  g_Dataset :: bool

definition module_globals :: py_globals where
  "module_globals =
     \<lparr>g_aws_dir = None, g_YYYYMMDD = None, g_names = None,
      g_pd = False, g_os = False, g_Dataset = False\<rparr>"

definition lookup_name :: "string \<Rightarrow> 'a option \<Rightarrow> error + 'a" where
  "lookup_name n v = (case v of None \<Rightarrow> Inl (NameError n) | Some x \<Rightarrow> Inr x)"

definition lookup_module :: "string \<Rightarrow> bool \<Rightarrow> error + unit" where
  "lookup_module n b = (if b then Inr () else Inl (NameError n))"

section \<open>read_aws\<close>

text \<open>
  A parsed table: the column names and the rows, one cell per column. Cells are numeric
  (the AWS files hold integers; pandas turns a rescaled column into floats).
  \<open>pd.read_csv\<close> is a parameter: from a path and the column names it gives the rows of
  the file or the error it raises; the columns of its result are the names passed.
\<close>

record dataframe =
  columns :: "string list"
  df_rows :: "pyfloat list list"

definition df_ok :: "dataframe \<Rightarrow> bool" where
  "df_ok df = (distinct (columns df) \<and> list_all (\<lambda>r. length r = length (columns df)) (df_rows df))"

fun col_index :: "string \<Rightarrow> string list \<Rightarrow> nat option" where
  "col_index c [] = None"
| "col_index c (x # xs) = (if x = c then Some 0 else map_option Suc (col_index c xs))"

text \<open>\<open>data.c = data.c/10.\<close>: reading a column that does not exist raises AttributeError.\<close>

definition scale_col :: "string \<Rightarrow> dataframe \<Rightarrow> error + dataframe" where
  "scale_col c df =
     (case col_index c (columns df) of
        None \<Rightarrow> Inl (AttributeError c)
      | Some k \<Rightarrow> Inr (df\<lparr>df_rows := map (\<lambda>r. r[k := f_div (r ! k) 10]) (df_rows df)\<rparr>))"

text \<open>Lines 56-67, in the order of the source.\<close>

definition scaled_fields :: "string list" where
  "scaled_fields =
     [''wd'', ''ws'', ''t'', ''rh'', ''pa'', ''ps'',
      ''rn60m_acc'', ''rn1d'', ''rn15m'', ''rn60m'', ''wds'', ''wss'']"

fun scale_cols :: "string list \<Rightarrow> dataframe \<Rightarrow> error + dataframe" where
  "scale_cols [] df = Inr df"
| "scale_cols (c # cs) df =
     (case scale_col c df of Inl e \<Rightarrow> Inl e | Inr df' \<Rightarrow> scale_cols cs df')"

text \<open>Line 68: \<open>data[data.stn == 100].values.tolist()[0]\<close>.\<close>

definition station_row :: "dataframe \<Rightarrow> error + pyfloat list" where
  "station_row df =
     (case col_index ''stn'' (columns df) of
        None \<Rightarrow> Inl (AttributeError ''stn'')
      | Some k \<Rightarrow>
          (case filter (\<lambda>r. r ! k = Fin 100) (df_rows df) of
             [] \<Rightarrow> Inl IndexError
           | r # _ \<Rightarrow> Inr r))"

text \<open>Lines 55-68: the body of the loop, for one file.\<close>

definition aws_file ::
  "py_globals \<Rightarrow> (string \<Rightarrow> string list \<Rightarrow> error + pyfloat list list) \<Rightarrow> string
     \<Rightarrow> error + pyfloat list" where
  "aws_file g read_csv file =
     bindE (lookup_module ''pd'' (g_pd g)) (\<lambda>_.
     bindE (lookup_name ''names'' (g_names g)) (\<lambda>ns.
     bindE (read_csv file ns) (\<lambda>rs.
     bindE (scale_cols scaled_fields \<lparr>columns = ns, df_rows = rs\<rparr>) station_row)))"

text \<open>Line 53: the glob pattern, with Python's slices \<open>[:6]\<close> and \<open>[6:8]\<close>.\<close>

definition aws_pattern :: "string \<Rightarrow> string \<Rightarrow> string" where
  "aws_pattern dir ymd =
     dir @ take 6 ymd @ ''/'' @ take 2 (drop 6 ymd) @ ''/'' @ ''AWS_MIN_'' @ ymd @ ''*''"

text \<open>The \<open>time\<close> argument of the two table readers: None, one datetime, or a list.\<close>

record datetime =
  dt_year :: int
  dt_month :: int
  dt_day :: int
  dt_hour :: int
  dt_minute :: int
  dt_second :: int
  dt_microsecond :: int

datatype time_arg = TimeNone | TimeOne datetime | TimeList "datetime list"

text \<open>
  \<open>glob\<close> maps a pattern to the paths that match it, in the order of the directory
  scan; \<open>np.sort\<close> puts them in lexicographic order.
\<close>

definition read_aws ::
  "py_globals \<Rightarrow> (string \<Rightarrow> string list) \<Rightarrow> (string \<Rightarrow> string list \<Rightarrow> error + pyfloat list list)
     \<Rightarrow> time_arg \<Rightarrow> string \<Rightarrow> bool \<Rightarrow> error + dataframe" where
  "read_aws g glob read_csv time datadir date_range =
     bindE (lookup_name ''aws_dir'' (g_aws_dir g)) (\<lambda>dir.
     bindE (lookup_name ''YYYYMMDD'' (g_YYYYMMDD g)) (\<lambda>ymd.
     bindE (mapE (aws_file g read_csv) (sort (glob (aws_pattern dir ymd)))) (\<lambda>list_aws.
     bindE (lookup_module ''pd'' (g_pd g)) (\<lambda>_.
     bindE (lookup_name ''names'' (g_names g)) (\<lambda>ns.
       Inr \<lparr>columns = ns, df_rows = list_aws\<rparr>)))))"

section \<open>read_2dvd_rho\<close>




























section \<open>read_mxpol_rhi_with_hc\<close>

text \<open>
  The classification bundle that \<open>scipy.io.loadmat\<close> returns: a dict, here the list of
  its items in iteration order (the order of the variables in the file). The values
  under keys that contain an underscore are never read.
\<close>

type_synonym hc_bundle = "(string \<times> pyfloat arr2) list"

definition bundle_get :: "hc_bundle \<Rightarrow> string \<Rightarrow> error + pyfloat arr2" where
  "bundle_get b k = (case map_of b k of None \<Rightarrow> Inl (KeyError k) | Some a \<Rightarrow> Inr a)"

text \<open>The variables and attributes that the reader takes from the volume file.\<close>

record volume =
  v_Elevation :: "pyfloat list"
  v_Range :: "pyfloat list"
  v_Azimuth :: "pyfloat list"
  v_Time :: "pyfloat list"
  v_Zdr :: "pyfloat arr2"
  v_Zh :: "pyfloat arr2"
  v_Kdp :: "pyfloat arr2"
  v_Longitude :: pyfloat
  v_Latitude :: pyfloat
  v_Altitude :: pyfloat

text \<open>
  Indexing with a boolean array along the first axis: the entries at the positions where
  the mask is true, in order; a mask of another length raises IndexError.
\<close>

definition select :: "bool list \<Rightarrow> 'a list \<Rightarrow> 'a list" where
  "select m xs = map snd (filter fst (zip m xs))"

definition bool_index :: "bool list \<Rightarrow> 'a list \<Rightarrow> error + 'a list" where
  "bool_index m xs = (if length m = length xs then Inr (select m xs) else Inl IndexError)"

definition bool_index_rows :: "bool list \<Rightarrow> 'a arr2 \<Rightarrow> error + 'a arr2" where
  "bool_index_rows m a =
     bindE (bool_index m (rows a)) (\<lambda>rs. Inr \<lparr>ncols = ncols a, rows = rs\<rparr>)"

text \<open>Line 171: \<open>np.logical_and(El>5, El<175)\<close>, for one elevation.\<close>

definition in_sector :: "pyfloat \<Rightarrow> bool" where
  "in_sector e = (f_lt (Fin 5) e \<and> f_lt e (Fin 175))"

text \<open>
  Lines 179-185. The local \<open>HC3d_proportion\<close> is unbound, a two-dimensional array (after
  the branch of line 183) or a stack of layers along a third axis (after \<open>np.dstack\<close>,
  which needs layers of one shape).
\<close>

datatype hc3d = Unbound | Layer2 "pyfloat arr2" | Stack3 "pyfloat arr2 list"

definition dstack :: "hc3d \<Rightarrow> pyfloat arr2 \<Rightarrow> error + hc3d" where
  "dstack st x =
     (case st of
        Unbound \<Rightarrow> Inl (UnboundLocalError ''HC3d_proportion'')
      | Layer2 a \<Rightarrow> if shape a = shape x then Inr (Stack3 [a, x]) else Inl ValueError
      | Stack3 ls \<Rightarrow> if shape (hd ls) = shape x then Inr (Stack3 (ls @ [x])) else Inl ValueError)"

fun stack_layers :: "hc3d \<Rightarrow> hc_bundle \<Rightarrow> error + hc3d" where
  "stack_layers st [] = Inr st"
| "stack_layers st ((i, a) # rest) =
     (if CHR ''_'' \<in> set i then stack_layers st rest
      else if py_in i ''AG'' then stack_layers (Layer2 a) rest
      else (case dstack st a of Inl e \<Rightarrow> Inl e | Inr st' \<Rightarrow> stack_layers st' rest))"

text \<open>
  \<open>np.argmax\<close> on floats: the running maximum is replaced by every later value that is
  not below or equal to it, and the scan stops at the first NaN.
\<close>

fun argmax_from :: "pyfloat \<Rightarrow> nat \<Rightarrow> nat \<Rightarrow> pyfloat list \<Rightarrow> nat" where
  "argmax_from mp k i [] = k"
| "argmax_from mp k i (x # xs) =
     (if isnan mp then k
      else if \<not> f_le x mp then argmax_from x i (Suc i) xs
      else argmax_from mp k (Suc i) xs)"

definition argmax :: "pyfloat list \<Rightarrow> nat" where
  "argmax vs = (case vs of [] \<Rightarrow> 0 | x # xs \<Rightarrow> argmax_from x 0 1 xs)"

text \<open>Lines 186-187, at one gate: the values of the layers there, in stacking order.\<close>

definition hc_cell :: "pyfloat arr2 list \<Rightarrow> nat \<Rightarrow> nat \<Rightarrow> pyfloat" where
  "hc_cell ls r c =
     (let vs = map (\<lambda>l. at2 l r c) ls in
      if isnan (hd vs) then NaN else Fin (real (argmax vs)))"

definition most_probable_habit :: "hc_bundle \<Rightarrow> error + pyfloat arr2" where
  "most_probable_habit b =
     bindE (stack_layers Unbound b) (\<lambda>st.
       case st of
         Unbound \<Rightarrow> Inl (UnboundLocalError ''HC3d_proportion'')
       | Layer2 a \<Rightarrow> Inl AxisError
       | Stack3 ls \<Rightarrow>
           Inr \<lparr>ncols = ncols (hd ls),
                rows = map (\<lambda>r. map (\<lambda>c. hc_cell ls r c) [0..<ncols (hd ls)])
                           [0..<nrows (hd ls)]\<rparr>)"

text \<open>
  The radar object: the attributes that the reader sets. \<open>make_empty_rhi_radar\<close> gives
  an object without fields, with \<open>nrays = rays_per_sweep * nsweeps\<close>; the reader
  overwrites every other attribute kept here, so their first values are left empty.
  \<open>add_field\<close> refuses a second field of one name unless told to replace it, and data
  whose shape is not \<open>(nrays, ngates)\<close>.
\<close>

record field =
  f_data :: "pyfloat arr2"
  f_unit :: string
  f_long_name :: string
  f_FillValue :: int
  f_standard_name :: string

record radar =
  nrays :: nat
  ngates :: nat
  radar_fields :: "string \<rightharpoonup> field"
  range_data :: "pyfloat list"
  elevation_data :: "pyfloat list"
  azimuth_data :: "pyfloat list"
  fixed_angle_data :: "pyfloat list"
  time_data :: "pyfloat list"
  time_units :: string
  longitude_data :: "pyfloat list"
  latitude_data :: "pyfloat list"
  altitude_data :: "pyfloat list"
  instrument_name :: string

definition make_empty_rhi_radar :: "nat \<Rightarrow> nat \<Rightarrow> nat \<Rightarrow> radar" where
  "make_empty_rhi_radar n_gates rays_per_sweep nsweeps =
     \<lparr>nrays = rays_per_sweep * nsweeps, ngates = n_gates, radar_fields = Map.empty,
      range_data = [], elevation_data = [], azimuth_data = [], fixed_angle_data = [],
      time_data = [], time_units = [], longitude_data = [], latitude_data = [],
      altitude_data = [], instrument_name = []\<rparr>"

definition add_field :: "radar \<Rightarrow> string \<Rightarrow> field \<Rightarrow> bool \<Rightarrow> error + radar" where
  "add_field r name dic replace_existing =
     (if radar_fields r name \<noteq> None \<and> \<not> replace_existing then Inl ValueError
      else if shape (f_data dic) \<noteq> (nrays r, ngates r) then Inl ValueError
      else Inr (r\<lparr>radar_fields := (radar_fields r)(name \<mapsto> dic)\<rparr>))"

definition list_str :: "string list" where
  "list_str = [''AG'', ''CR'', ''IH'', ''LR'', ''MH'', ''RN'', ''RP'', ''WS'']"

definition list_standard :: "string list" where
  "list_standard =
     [''Aggregation'', ''Crystal'', ''Ice hail / Graupel'', ''Light rain'',
      ''Melting hail'', ''Rain'', ''Rimed particles'', ''Wet snow'']"

text \<open>Lines 198-203: one field per habit code, its data taken from the bundle as loaded.\<close>

fun add_proportions :: "hc_bundle \<Rightarrow> (string \<times> string) list \<Rightarrow> radar \<Rightarrow> error + radar" where
  "add_proportions b [] r = Inr r"
| "add_proportions b ((str, standard) # rest) r =
     bindE (bundle_get b str) (\<lambda>a.
     bindE (add_field r str
              \<lparr>f_data = a, f_unit = ''-'', f_long_name = ''Proportion of the '' @ str,
               f_FillValue = -9999, f_standard_name = standard\<rparr> True)
           (add_proportions b rest))"

definition hc_long_name :: string where
  "hc_long_name =
     ''Most probable habit. AG(0), CR(1), IH(2), LR(3), MH(4), RN(5), RP(6), WS(7)''"

text \<open>Lines 240-241: the masked azimuth, moved by 360 as a whole when its first entry is negative.\<close>

definition fix_azimuth :: "pyfloat list \<Rightarrow> error + pyfloat list" where
  "fix_azimuth az =
     (case az of
        [] \<Rightarrow> Inl IndexError
      | a # _ \<Rightarrow> Inr (if f_lt a (Fin 0) then map (\<lambda>x. f_add x 360) az else az))"

text \<open>
  \<open>loadmat\<close> and \<open>open_dataset\<close> are the two file libraries: from a path, the bundle or
  the volume stored there, or the error raised. \<open>Dataset\<close> is looked up after the bundle
  is loaded (line 169).
\<close>

definition read_mxpol_rhi_with_hc ::
  "py_globals \<Rightarrow> (string \<Rightarrow> error + hc_bundle) \<Rightarrow> (string \<Rightarrow> error + volume)
     \<Rightarrow> string \<Rightarrow> string \<Rightarrow> error + radar" where
  "read_mxpol_rhi_with_hc g loadmat open_dataset rhifile_nc hcfile_mat =
     bindE (loadmat hcfile_mat) (\<lambda>HC_proportion.
     bindE (lookup_module ''Dataset'' (g_Dataset g)) (\<lambda>_.
     bindE (open_dataset rhifile_nc) (\<lambda>mxpol.
     let wh_hc = map in_sector (v_Elevation mxpol);
         El = select wh_hc (v_Elevation mxpol);
         R = v_Range mxpol in
     bindE (bundle_get HC_proportion ''AG'') (\<lambda>ag.
     bindE (most_probable_habit HC_proportion) (\<lambda>HC.
     bindE (add_proportions HC_proportion (zip list_str list_standard)
              (make_empty_rhi_radar (ncols ag) (nrows ag) 1)) (\<lambda>radar1.
     bindE (add_field radar1 ''HC''
              \<lparr>f_data = HC, f_unit = ''-'', f_long_name = hc_long_name,
               f_FillValue = -9999, f_standard_name = ''Hydrometeor classification''\<rparr>
              True) (\<lambda>radar2.
     bindE (bool_index_rows wh_hc (transpose_arr2 (v_Zdr mxpol))) (\<lambda>ZDR.
     bindE (bool_index_rows wh_hc (transpose_arr2 (v_Zh mxpol))) (\<lambda>Z.
     bindE (bool_index_rows wh_hc (transpose_arr2 (v_Kdp mxpol))) (\<lambda>KDP.
     bindE (add_field radar2 ''KDP''
              \<lparr>f_data = KDP, f_unit = ''deg/km'',
               f_long_name = ''differential phase shift'',
               f_FillValue = -9999, f_standard_name = ''KDP''\<rparr> False) (\<lambda>radar3.
     bindE (add_field radar3 ''ZDR''
              \<lparr>f_data = map_arr2 (\<lambda>x. f_sub x 4.5) ZDR, f_unit = ''dB'',
               f_long_name = ''differential reflectivity'',
               f_FillValue = -9999, f_standard_name = ''ZDR''\<rparr> False) (\<lambda>radar4.
     bindE (add_field radar4 ''ZHH''
              \<lparr>f_data = Z, f_unit = ''dBZ'',
               f_long_name = ''horizontal reflectivity'',
               f_FillValue = -9999, f_standard_name = ''ZHH''\<rparr> False) (\<lambda>radar5.
     bindE (bool_index wh_hc (v_Azimuth mxpol)) (\<lambda>az.
     bindE (fix_azimuth az) (\<lambda>azimuth.
       Inr (radar5\<lparr>range_data := R,
                   elevation_data := El,
                   azimuth_data := azimuth,
                   fixed_angle_data := azimuth,
                   time_data := v_Time mxpol,
                   time_units := ''seconds since 1970-01-01T00:00:00Z'',
                   longitude_data := [v_Longitude mxpol],
                   latitude_data := [v_Latitude mxpol],
                   instrument_name := ''MXPol'',
                   altitude_data := [v_Altitude mxpol]\<rparr>))))))))))))))))"

section \<open>Concrete inputs\<close>

text \<open>A raster of three rows and two columns, stored at \<open>dem.tif\<close>; no other file exists.\<close>

definition demo_raster :: raster where
  "demo_raster =
     \<lparr>r_dem = \<lparr>ncols = 2, rows = [[Fin 3, Fin 0], [Fin (-2), Fin 7], [NaN, Fin 1]]\<rparr>,
      r_lon = \<lparr>ncols = 2, rows = [[Fin 128, Fin 129], [Fin 128, Fin 129], [Fin 128, Fin 129]]\<rparr>,
      r_lat = \<lparr>ncols = 2, rows = [[Fin 38, Fin 38], [Fin 37, Fin 37], [Fin 36, Fin 36]]\<rparr>,
      r_proj = ''EPSG:4326''\<rparr>"

definition demo_open :: "string \<Rightarrow> error + raster" where
  "demo_open p = (if p = ''dem.tif'' then Inr demo_raster else Inl OSError)"

text \<open>
  The specification's reading of the rescaling, for comparison with \<open>scale_cols\<close>: in a
  row, the cells under the column names in \<open>cs\<close> are divided by 10 and the others are
  left as they are.
\<close>

definition scaled_row :: "string list \<Rightarrow> string list \<Rightarrow> pyfloat list \<Rightarrow> pyfloat list" where
  "scaled_row cs ns raw = map (\<lambda>(c, v). if c \<in> set cs then f_div v 10 else v) (zip ns raw)"

text \<open>
  Two AWS files of one day, found by the directory scan in the opposite of sorted order.
  The first holds a row of station 90 and two rows of station 100, the second one row of
  station 100 whose every cell is 100.
\<close>

definition aws_names :: "string list" where
  "aws_names = [''tm'', ''stn'', ''wd'', ''ws'', ''t'', ''rh'', ''pa'', ''ps'',
                ''rn60m_acc'', ''rn1d'', ''rn15m'', ''rn60m'', ''wds'', ''wss'']"

definition aws_globals :: py_globals where
  "aws_globals =
     \<lparr>g_aws_dir = Some ''/aws/'', g_YYYYMMDD = Some ''20180228'', g_names = Some aws_names,
      g_pd = True, g_os = True, g_Dataset = True\<rparr>"

definition aws_file_a :: string where
  "aws_file_a = ''/aws/201802/28/AWS_MIN_201802280600''"

definition aws_file_b :: string where
  "aws_file_b = ''/aws/201802/28/AWS_MIN_201802280601''"

definition aws_glob :: "string \<Rightarrow> string list" where
  "aws_glob pat =
     (if pat = ''/aws/201802/28/AWS_MIN_20180228*'' then [aws_file_b, aws_file_a] else [])"

definition aws_row_a :: "pyfloat list" where
  "aws_row_a = [Fin 201802280600, Fin 100, Fin 2700, Fin 35, Fin (-52), Fin 640, Fin 9321,
                Fin 10213, Fin 0, Fin 15, Fin 5, Fin 10, Fin 2800, Fin 61]"

definition aws_row_b :: "pyfloat list" where
  "aws_row_b = [Fin 201802280601, Fin 100, Fin 100, Fin 100, Fin 100, Fin 100, Fin 100,
                Fin 100, Fin 100, Fin 100, Fin 100, Fin 100, Fin 100, Fin 100]"

definition aws_csv :: "string \<Rightarrow> string list \<Rightarrow> error + pyfloat list list" where
  "aws_csv path ns =
     (if path = aws_file_a then
        Inr [[Fin 201802280600, Fin 90, Fin 10, Fin 20, Fin 30, Fin 40, Fin 50, Fin 60,
              Fin 70, Fin 80, Fin 90, Fin 100, Fin 110, Fin 120],
             aws_row_a,
             [Fin 201802280600, Fin 100, Fin 1, Fin 2, Fin 3, Fin 4, Fin 5, Fin 6,
              Fin 7, Fin 8, Fin 9, Fin 10, Fin 11, Fin 12]]
      else if path = aws_file_b then Inr [aws_row_b]
      else Inl OSError)"

definition aws_raw :: "string \<Rightarrow> pyfloat list" where
  "aws_raw path = (if path = aws_file_a then aws_row_a else aws_row_b)"














text \<open>
  Three classification bundles of one ray and two gates, and a volume of two rays (of
  elevation 3 and 10) and two gates. In \<open>hc_documented\<close> the variables are stored in
  the order of the field's description, in \<open>hc_rn_second\<close> the layer \<open>RN\<close> follows
  \<open>AG\<close>, in \<open>hc_ag_nan\<close> the first gate of \<open>AG\<close> is NaN. At the first gate \<open>RN\<close>
  is the largest layer. \<open>Dataset\<close> is bound.
\<close>

definition layer :: "real \<Rightarrow> real \<Rightarrow> pyfloat arr2" where
  "layer x y = \<lparr>ncols = 2, rows = [[Fin x, Fin y]]\<rparr>"

definition hc_documented :: hc_bundle where
  "hc_documented =
     [(''__header__'', \<lparr>ncols = 0, rows = []\<rparr>),
      (''AG'', layer 0.05 0.3), (''CR'', layer 0.05 0.1), (''IH'', layer 0.05 0.1),
      (''LR'', layer 0.05 0.1), (''MH'', layer 0.05 0.1), (''RN'', layer 0.6 0.1),
      (''RP'', layer 0.05 0.1), (''WS'', layer 0.05 0.1)]"

definition hc_rn_second :: hc_bundle where
  "hc_rn_second =
     [(''__header__'', \<lparr>ncols = 0, rows = []\<rparr>),
      (''AG'', layer 0.05 0.3), (''RN'', layer 0.6 0.1), (''CR'', layer 0.05 0.1),
      (''IH'', layer 0.05 0.1), (''LR'', layer 0.05 0.1), (''MH'', layer 0.05 0.1),
      (''RP'', layer 0.05 0.1), (''WS'', layer 0.05 0.1)]"

definition hc_ag_nan :: hc_bundle where
  "hc_ag_nan =
     [(''__header__'', \<lparr>ncols = 0, rows = []\<rparr>),
      (''AG'', \<lparr>ncols = 2, rows = [[NaN, Fin 0.3]]\<rparr>), (''CR'', layer 0.05 0.1),
      (''IH'', layer 0.05 0.1), (''LR'', layer 0.05 0.1), (''MH'', layer 0.05 0.1),
      (''RN'', layer 0.6 0.1), (''RP'', layer 0.05 0.1), (''WS'', layer 0.05 0.1)]"

definition mx_volume :: volume where
  "mx_volume =
     \<lparr>v_Elevation = [Fin 3, Fin 10], v_Range = [Fin 100, Fin 200],
      v_Azimuth = [Fin (-135), Fin (-135)], v_Time = [Fin 0, Fin 1],
      v_Zdr = \<lparr>ncols = 2, rows = [[Fin 5, Fin 6], [Fin 7, Fin 8]]\<rparr>,
      v_Zh = \<lparr>ncols = 2, rows = [[Fin 20, Fin 21], [Fin 22, Fin 23]]\<rparr>,
      v_Kdp = \<lparr>ncols = 2, rows = [[Fin 1, Fin 2], [Fin 3, Fin 4]]\<rparr>,
      v_Longitude = Fin 128, v_Latitude = Fin 37, v_Altitude = Fin 800\<rparr>"

definition mx_loadmat :: "string \<Rightarrow> error + hc_bundle" where
  "mx_loadmat p =
     (if p = ''hc.mat'' then Inr hc_documented
      else if p = ''rn.mat'' then Inr hc_rn_second
      else if p = ''nan.mat'' then Inr hc_ag_nan
      else Inl OSError)"

definition mx_dataset :: "string \<Rightarrow> error + volume" where
  "mx_dataset p = (if p = ''rhi.nc'' then Inr mx_volume else Inl OSError)"

definition mx_globals :: py_globals where
  "mx_globals = \<lparr>g_aws_dir = None, g_YYYYMMDD = None, g_names = None,
                  g_pd = False, g_os = False, g_Dataset = True\<rparr>"

section \<open>Facts about the shared operations\<close>

lemma py_in_iff: "py_in a s = contiguous_substring a s"
proof (induction s)
  case Nil
  show ?case by (auto simp: contiguous_substring_def)
next
  case (Cons c s)
  have "contiguous_substring a (c # s) = (prefix a (c # s) \<or> contiguous_substring a s)"
  proof
    assume "contiguous_substring a (c # s)"
    then obtain p q where pq: "c # s = p @ a @ q"
      by (auto simp: contiguous_substring_def)
    show "prefix a (c # s) \<or> contiguous_substring a s"
    proof (cases p)
      case Nil
      with pq show ?thesis by (auto simp: prefix_def)
    next
      case (Cons x p')
      with pq have "s = p' @ a @ q" by simp
      then show ?thesis by (auto simp: contiguous_substring_def)
    qed
  next
    assume "prefix a (c # s) \<or> contiguous_substring a s"
    then show "contiguous_substring a (c # s)"
    proof
      assume "prefix a (c # s)"
      then obtain q where "c # s = a @ q" by (auto simp: prefix_def)
      then have "c # s = [] @ a @ q" by simp
      then show ?thesis unfolding contiguous_substring_def by blast
    next
      assume "contiguous_substring a s"
      then obtain p q where "s = p @ a @ q" by (auto simp: contiguous_substring_def)
      then have "c # s = (c # p) @ a @ q" by simp
      then show ?thesis unfolding contiguous_substring_def by blast
    qed
  qed
  with Cons show ?case by simp
qed

lemma nrows_transpose: "nrows (transpose_arr2 a) = ncols a"
  by (simp add: nrows_def transpose_arr2_def)

lemma ncols_transpose: "ncols (transpose_arr2 a) = nrows a"
  by (simp add: transpose_arr2_def)

lemma at2_transpose:
  "i < nrows a \<Longrightarrow> j < ncols a \<Longrightarrow> at2 (transpose_arr2 a) j i = at2 a i j"
  by (simp add: at2_def transpose_arr2_def nrows_def)

lemma at2_map_arr2:
  "arr2_ok a \<Longrightarrow> i < nrows a \<Longrightarrow> j < ncols a \<Longrightarrow> at2 (map_arr2 f a) i j = f (at2 a i j)"
  by (simp add: at2_def map_arr2_def nrows_def arr2_ok_def list_all_length)

lemma nrows_map_arr2: "nrows (map_arr2 f a) = nrows a"
  by (simp add: nrows_def map_arr2_def)

lemma ncols_map_arr2: "ncols (map_arr2 f a) = ncols a"
  by (simp add: map_arr2_def)

lemma at2_dem_grid:
  assumes "arr2_ok raw" "i < nrows raw" "j < ncols raw"
  shows "at2 (dem_grid raw) j i = mask_nonpositive (at2 raw i j)"
proof -
  have "at2 (dem_grid raw) j i = at2 (map_arr2 mask_nonpositive raw) i j"
    unfolding dem_grid_def using assms
    by (intro at2_transpose) (simp_all add: nrows_map_arr2 ncols_map_arr2)
  with assms show ?thesis by (simp add: at2_map_arr2)
qed

lemma shape_dem_grid: "shape (dem_grid raw) = (ncols raw, nrows raw)"
  by (simp add: shape_def dem_grid_def nrows_def transpose_arr2_def map_arr2_def)

lemma read_dem_Inr:
  assumes "read_dem opn file area = (tr, Inr (dem, lon, lat, proj))"
  shows "\<exists>p r. opn p = Inr r \<and> tr = [Opened p] \<and> dem = dem_grid (r_dem r)
            \<and> lon = r_lon r \<and> lat = r_lat r \<and> proj = r_proj r"
  using assms
  by (auto simp: read_dem_def bind_ds_def open_ds_def
           split: option.splits if_splits sum.splits prod.splits)

section \<open>read_dem: masking, transposition and the choice of the raster\<close>

text \<open>
  Claim C7. Whenever \<open>read_dem\<close> returns its four-tuple, a raster was opened and the
  returned elevation grid has the raster's shape with the two axes exchanged; the value
  at the raw position \<open>(i, j)\<close> appears at \<open>(j, i)\<close>, as NaN when the raw value is at
  most 0 and unchanged when it is above 0.
\<close>

theorem read_dem_masks_and_transposes:
  assumes "read_dem opn file area = (tr, Inr (dem, lon, lat, proj))"
  shows "\<exists>p r. opn p = Inr r \<and> tr = [Opened p]
           \<and> shape dem = (ncols (r_dem r), nrows (r_dem r))
           \<and> (arr2_ok (r_dem r) \<longrightarrow>
                (\<forall>i < nrows (r_dem r). \<forall>j < ncols (r_dem r).
                   (f_le (at2 (r_dem r) i j) (Fin 0) \<longrightarrow> at2 dem j i = NaN) \<and>
                   (f_lt (Fin 0) (at2 (r_dem r) i j) \<longrightarrow> at2 dem j i = at2 (r_dem r) i j)))"
proof -
  from read_dem_Inr [OF assms] obtain p r where
    pr: "opn p = Inr r" "tr = [Opened p]" "dem = dem_grid (r_dem r)"
    by blast
  have cells: "at2 dem j i = NaN" if "arr2_ok (r_dem r)" "i < nrows (r_dem r)"
    "j < ncols (r_dem r)" "f_le (at2 (r_dem r) i j) (Fin 0)" for i j
    using that pr(3) by (simp add: at2_dem_grid mask_nonpositive_def)
  have keep: "at2 dem j i = at2 (r_dem r) i j" if "arr2_ok (r_dem r)" "i < nrows (r_dem r)"
    "j < ncols (r_dem r)" "f_lt (Fin 0) (at2 (r_dem r) i j)" for i j
  proof -
    have "\<not> f_le (at2 (r_dem r) i j) (Fin 0)"
      using that(4) by (cases "at2 (r_dem r) i j") auto
    with that pr(3) show ?thesis by (simp add: at2_dem_grid mask_nonpositive_def)
  qed
  from pr cells keep show ?thesis
    by (intro exI [of _ p] exI [of _ r]) (simp add: shape_dem_grid)
qed

text \<open>The theorem at the raster \<open>demo_raster\<close>: a raw \<open>-2\<close> becomes NaN, a raw \<open>7\<close> stays.\<close>

theorem read_dem_masks_and_transposes_witness:
  "read_dem demo_open (Some ''dem.tif'') ''pyeongchang''
     = ([Opened ''dem.tif''],
        Inr (dem_grid (r_dem demo_raster), r_lon demo_raster, r_lat demo_raster, r_proj demo_raster))
   \<and> arr2_ok (r_dem demo_raster)
   \<and> f_le (at2 (r_dem demo_raster) 1 0) (Fin 0)
   \<and> at2 (dem_grid (r_dem demo_raster)) 0 1 = NaN
   \<and> f_lt (Fin 0) (at2 (r_dem demo_raster) 1 1)
   \<and> at2 (dem_grid (r_dem demo_raster)) 1 1 = Fin 7
   \<and> shape (dem_grid (r_dem demo_raster)) = (2, 3)"
proof -
  have h: "read_dem demo_open (Some ''dem.tif'') ''pyeongchang''
     = ([Opened ''dem.tif''],
        Inr (dem_grid (r_dem demo_raster), r_lon demo_raster, r_lat demo_raster, r_proj demo_raster))"
    by (simp add: read_dem_def bind_ds_def open_ds_def demo_open_def)
  from read_dem_masks_and_transposes [OF h] obtain p r where
    pr: "demo_open p = Inr r" "shape (dem_grid (r_dem demo_raster)) = (ncols (r_dem r), nrows (r_dem r))"
      "arr2_ok (r_dem r) \<longrightarrow>
         (\<forall>i < nrows (r_dem r). \<forall>j < ncols (r_dem r).
            (f_le (at2 (r_dem r) i j) (Fin 0) \<longrightarrow> at2 (dem_grid (r_dem demo_raster)) j i = NaN) \<and>
            (f_lt (Fin 0) (at2 (r_dem r) i j)
               \<longrightarrow> at2 (dem_grid (r_dem demo_raster)) j i = at2 (r_dem r) i j))"
    by blast
  from pr(1) have r: "r = demo_raster"
    by (simp add: demo_open_def split: if_splits)
  have ok: "arr2_ok (r_dem demo_raster)"
    by (simp add: arr2_ok_def demo_raster_def)
  have n: "nrows (r_dem demo_raster) = 3" "ncols (r_dem demo_raster) = 2"
    by (simp_all add: nrows_def demo_raster_def)
  have v: "at2 (r_dem demo_raster) 1 0 = Fin (-2)" "at2 (r_dem demo_raster) 1 1 = Fin 7"
    by (simp_all add: at2_def demo_raster_def)
  from pr(3) ok r
  have all: "\<forall>i < nrows (r_dem demo_raster). \<forall>j < ncols (r_dem demo_raster).
            (f_le (at2 (r_dem demo_raster) i j) (Fin 0)
               \<longrightarrow> at2 (dem_grid (r_dem demo_raster)) j i = NaN) \<and>
            (f_lt (Fin 0) (at2 (r_dem demo_raster) i j)
               \<longrightarrow> at2 (dem_grid (r_dem demo_raster)) j i = at2 (r_dem demo_raster) i j)"
    by simp
  have i1: "(1::nat) < nrows (r_dem demo_raster)" and j0: "(0::nat) < ncols (r_dem demo_raster)"
    and j1: "(1::nat) < ncols (r_dem demo_raster)"
    using n by simp_all
  have le: "f_le (at2 (r_dem demo_raster) 1 0) (Fin 0)"
    and lt: "f_lt (Fin 0) (at2 (r_dem demo_raster) 1 1)"
    using v by simp_all
  from all i1 j0 le have a: "at2 (dem_grid (r_dem demo_raster)) 0 1 = NaN"
    by blast
  from all i1 j1 lt have b: "at2 (dem_grid (r_dem demo_raster)) 1 1 = at2 (r_dem demo_raster) 1 1"
    by blast
  from pr(2) r n have c: "shape (dem_grid (r_dem demo_raster)) = (2, 3)"
    by simp
  from h ok le lt a b c v show ?thesis by simp
qed

text \<open>
  Claim C8. With \<open>file=None\<close> and an area that neither membership test of lines 289 and
  291 accepts, \<open>read_dem\<close> prints the diagnostic, opens no raster, and then fails on the
  unbound local \<open>ds\<close>: it raises UnboundLocalError, which is a NameError and not an error
  of its own for an unknown region, and it does not return the four-tuple.
\<close>

theorem read_dem_unknown_area:
  assumes "\<not> py_in area ''pyeongchang''" and "\<not> py_in area ''korea''"
  shows "read_dem opn None area
           = ([Printed ''Please check area argument''], Inl (UnboundLocalError ''ds''))"
  using assms by (simp add: read_dem_def bind_ds_def)

text \<open>The theorem at the area \<open>seoul\<close>.\<close>

theorem read_dem_unknown_area_witness:
  "\<not> py_in ''seoul'' ''pyeongchang'' \<and> \<not> py_in ''seoul'' ''korea'' \<and>
   read_dem demo_open None ''seoul''
     = ([Printed ''Please check area argument''], Inl (UnboundLocalError ''ds''))"
proof -
  have a: "\<not> py_in ''seoul'' ''pyeongchang''" by simp
  have b: "\<not> py_in ''seoul'' ''korea''" by simp
  from a b read_dem_unknown_area [OF a b, of demo_open] show ?thesis by blast
qed

text \<open>
  Claim C10. The preset is chosen by substring membership: every area that occurs in
  \<open>pyeongchang\<close> as a contiguous substring opens the pyeongchang raster, every area
  that occurs in \<open>korea\<close> but not in \<open>pyeongchang\<close> opens the korea raster, and the
  diagnostic branch is reached by exactly the areas that occur in neither.
\<close>

theorem read_dem_preset_by_substring:
  "(contiguous_substring area ''pyeongchang''
      \<longrightarrow> fst (read_dem opn None area) = [Opened pyeongchang_tif])
   \<and> (contiguous_substring area ''korea'' \<and> \<not> contiguous_substring area ''pyeongchang''
      \<longrightarrow> fst (read_dem opn None area) = [Opened korea_tif])
   \<and> ((fst (read_dem opn None area) = [Printed ''Please check area argument''])
        = (\<not> contiguous_substring area ''pyeongchang'' \<and> \<not> contiguous_substring area ''korea''))"
  unfolding py_in_iff [symmetric]
  by (simp add: read_dem_def bind_ds_def open_ds_def split: sum.splits)

text \<open>The theorem at the empty string, at \<open>chang\<close>, at \<open>kor\<close> and at \<open>seoul\<close>.\<close>

theorem read_dem_preset_by_substring_witness:
  "contiguous_substring ''chang'' ''pyeongchang''
   \<and> fst (read_dem demo_open None ''chang'') = [Opened pyeongchang_tif]
   \<and> contiguous_substring [] ''pyeongchang''
   \<and> fst (read_dem demo_open None []) = [Opened pyeongchang_tif]
   \<and> contiguous_substring ''kor'' ''korea'' \<and> \<not> contiguous_substring ''kor'' ''pyeongchang''
   \<and> fst (read_dem demo_open None ''kor'') = [Opened korea_tif]
   \<and> \<not> contiguous_substring ''seoul'' ''pyeongchang'' \<and> \<not> contiguous_substring ''seoul'' ''korea''
   \<and> fst (read_dem demo_open None ''seoul'') = [Printed ''Please check area argument'']"
proof -
  have a: "contiguous_substring ''chang'' ''pyeongchang''"
    and b: "contiguous_substring [] ''pyeongchang''"
    and c: "contiguous_substring ''kor'' ''korea''"
    and d: "\<not> contiguous_substring ''kor'' ''pyeongchang''"
    and e: "\<not> contiguous_substring ''seoul'' ''pyeongchang''"
    and f: "\<not> contiguous_substring ''seoul'' ''korea''"
    unfolding py_in_iff [symmetric] by simp_all
  from a b c d e f
    read_dem_preset_by_substring [of "''chang''" demo_open]
    read_dem_preset_by_substring [of "[]" demo_open]
    read_dem_preset_by_substring [of "''kor''" demo_open]
    read_dem_preset_by_substring [of "''seoul''" demo_open]
  show ?thesis by blast
qed

section \<open>read_aws: the names it never binds\<close>

text \<open>
  Claim C9. With the names that the module binds, every call of \<open>read_aws\<close> raises
  NameError at line 53, on \<open>aws_dir\<close>, whatever the directory scan and the file parser
  would give and whatever \<open>time\<close>, \<open>datadir\<close> and \<open>date_range\<close> are; \<open>aws_dir\<close>,
  \<open>YYYYMMDD\<close>, \<open>names\<close> and \<open>pd\<close> are all unbound.
\<close>

theorem read_aws_always_name_error:
  "read_aws module_globals glob read_csv time datadir date_range = Inl (NameError ''aws_dir'')
   \<and> g_aws_dir module_globals = None \<and> g_YYYYMMDD module_globals = None
   \<and> g_names module_globals = None \<and> \<not> g_pd module_globals"
  by (simp add: read_aws_def module_globals_def lookup_name_def bindE_def)

section \<open>Sequencing\<close>

lemma bindE_Inr [simp]: "bindE (Inr x) f = f x"
  by (simp add: bindE_def)

lemma bindE_Inl [simp]: "bindE (Inl e) f = Inl e"
  by (simp add: bindE_def)

lemma bindE_eq_Inr: "bindE m f = Inr y \<longleftrightarrow> (\<exists>x. m = Inr x \<and> f x = Inr y)"
  by (cases m) simp_all

lemma mapE_Inr_iff: "mapE f xs = Inr ys \<longleftrightarrow> list_all2 (\<lambda>x y. f x = Inr y) xs ys"
proof (induction xs arbitrary: ys)
  case Nil
  show ?case by auto
next
  case (Cons x xs)
  show ?case
  proof (cases ys)
    case Nil
    then show ?thesis by (simp split: sum.splits)
  next
    case (Cons y ys')
    have "mapE f (x # xs) = Inr (y # ys') \<longleftrightarrow> f x = Inr y \<and> mapE f xs = Inr ys'"
      by (simp split: sum.splits)
    with Cons Cons.IH [of ys'] show ?thesis by simp
  qed
qed

lemma mapE_map: "(\<And>x. x \<in> set xs \<Longrightarrow> f x = Inr (h x)) \<Longrightarrow> mapE f xs = Inr (map h xs)"
  by (induction xs) simp_all

section \<open>read_aws: rescaling and the station filter\<close>

lemma col_index_Some: "col_index c xs = Some k \<Longrightarrow> k < length xs \<and> xs ! k = c"
  by (induction xs arbitrary: k) (auto split: if_splits)

lemma col_index_None: "col_index c xs = None \<longleftrightarrow> c \<notin> set xs"
  by (induction xs) auto

lemma col_index_mem: "c \<in> set xs \<Longrightarrow> \<exists>k. col_index c xs = Some k"
  using col_index_None [of c xs] by (cases "col_index c xs") auto

lemma scaled_row_Nil: "length r = length ns \<Longrightarrow> scaled_row [] ns r = r"
  by (simp add: scaled_row_def list_eq_iff_nth_eq)

lemma scaled_row_step:
  assumes "distinct ns" "length r = length ns" "col_index c ns = Some k" "c \<notin> set cs"
  shows "scaled_row cs ns (r[k := f_div (r ! k) 10]) = scaled_row (c # cs) ns r"
proof -
  from assms(3) have k: "k < length ns" "ns ! k = c"
    using col_index_Some by blast+
  have "scaled_row cs ns (r[k := f_div (r ! k) 10]) ! i = scaled_row (c # cs) ns r ! i"
    if "i < length ns" for i
  proof (cases "i = k")
    case True
    with that assms k show ?thesis by (simp add: scaled_row_def)
  next
    case False
    with that k assms(1) have "ns ! i \<noteq> c"
      by (auto simp: nth_eq_iff_index_eq)
    with that assms False show ?thesis by (simp add: scaled_row_def)
  qed
  with assms(2) show ?thesis
    by (simp add: list_eq_iff_nth_eq scaled_row_def)
qed

lemma scale_cols_ok:
  assumes "distinct cs" "set cs \<subseteq> set (columns df)" "df_ok df"
  shows "scale_cols cs df = Inr (df\<lparr>df_rows := map (scaled_row cs (columns df)) (df_rows df)\<rparr>)"
  using assms
proof (induction cs arbitrary: df)
  case Nil
  then have "map (scaled_row [] (columns df)) (df_rows df) = df_rows df"
    by (intro map_idI) (simp add: df_ok_def list_all_iff scaled_row_Nil)
  then show ?case by simp
next
  case (Cons c cs)
  from Cons.prems obtain k where k: "col_index c (columns df) = Some k"
    using col_index_mem by fastforce
  define df' where "df' = df\<lparr>df_rows := map (\<lambda>r. r[k := f_div (r ! k) 10]) (df_rows df)\<rparr>"
  have sc: "scale_col c df = Inr df'"
    using k by (simp add: scale_col_def df'_def)
  have ok': "df_ok df'" and cols': "columns df' = columns df"
    using Cons.prems(3) by (simp_all add: df_ok_def df'_def list_all_iff)
  have "scale_cols cs df' = Inr (df'\<lparr>df_rows := map (scaled_row cs (columns df')) (df_rows df')\<rparr>)"
    using Cons.prems ok' cols' by (intro Cons.IH) simp_all
  moreover have "map (scaled_row cs (columns df)) (df_rows df')
                   = map (scaled_row (c # cs) (columns df)) (df_rows df)"
    unfolding df'_def using Cons.prems k
    by (auto simp: df_ok_def list_all_iff intro!: scaled_row_step)
  ultimately show ?case
    using sc cols' by (simp add: df'_def)
qed

lemma scaled_row_nth:
  "length r = length ns \<Longrightarrow> k < length ns \<Longrightarrow>
     scaled_row cs ns r ! k = (if ns ! k \<in> set cs then f_div (r ! k) 10 else r ! k)"
  by (simp add: scaled_row_def)

lemma length_scaled_row: "length r = length ns \<Longrightarrow> length (scaled_row cs ns r) = length ns"
  by (simp add: scaled_row_def)

lemma distinct_scaled_fields: "distinct scaled_fields \<and> length scaled_fields = 12"
  by (simp add: scaled_fields_def)

lemma aws_file_ok:
  assumes pd: "g_pd g" and names: "g_names g = Some ns" and dist: "distinct ns"
    and sub: "set scaled_fields \<subseteq> set ns"
    and stn: "col_index ''stn'' ns = Some k"
    and csv: "read_csv f ns = Inr rs"
    and rect: "list_all (\<lambda>r. length r = length ns) rs"
    and first: "filter (\<lambda>r. r ! k = Fin 100) rs = raw # rest"
  shows "aws_file g read_csv f = Inr (scaled_row scaled_fields ns raw)"
proof -
  let ?df = "\<lparr>columns = ns, df_rows = rs\<rparr>"
  have ok: "df_ok ?df" using dist rect by (simp add: df_ok_def)
  have sc: "scale_cols scaled_fields ?df
              = Inr (?df\<lparr>df_rows := map (scaled_row scaled_fields ns) rs\<rparr>)"
  proof -
    have "distinct scaled_fields" using distinct_scaled_fields by blast
    moreover have "set scaled_fields \<subseteq> set (columns ?df)" using sub by simp
    ultimately have "scale_cols scaled_fields ?df
       = Inr (?df\<lparr>df_rows := map (scaled_row scaled_fields (columns ?df)) (df_rows ?df)\<rparr>)"
      using ok by (rule scale_cols_ok)
    then show ?thesis by simp
  qed
  have kk: "k < length ns" "ns ! k = ''stn''"
    using stn col_index_Some by blast+
  have notsc: "''stn'' \<notin> set scaled_fields"
    by (simp add: scaled_fields_def)
  have same: "(scaled_row scaled_fields ns r ! k = Fin 100) = (r ! k = Fin 100)" if "r \<in> set rs" for r
    using that rect kk notsc by (simp add: list_all_iff scaled_row_nth)
  have "filter (\<lambda>r. r ! k = Fin 100) (map (scaled_row scaled_fields ns) rs)
          = map (scaled_row scaled_fields ns) (filter (\<lambda>r. r ! k = Fin 100) rs)"
    unfolding filter_map o_def by (rule arg_cong [where f = "map (scaled_row scaled_fields ns)"], rule filter_cong) (simp_all add: same)
  with first have "filter (\<lambda>r. r ! k = Fin 100) (map (scaled_row scaled_fields ns) rs)
          = scaled_row scaled_fields ns raw # map (scaled_row scaled_fields ns) rest"
    by simp
  then have "station_row (?df\<lparr>df_rows := map (scaled_row scaled_fields ns) rs\<rparr>)
               = Inr (scaled_row scaled_fields ns raw)"
    using stn by (simp add: station_row_def)
  with pd names csv sc show ?thesis
    by (simp add: aws_file_def lookup_module_def lookup_name_def)
qed

lemma read_aws_ok:
  assumes dir: "g_aws_dir g = Some d" and ymd: "g_YYYYMMDD g = Some y"
    and pd: "g_pd g" and names: "g_names g = Some ns" and dist: "distinct ns"
    and sub: "set scaled_fields \<subseteq> set ns"
    and stn: "col_index ''stn'' ns = Some k"
    and files: "\<And>f. f \<in> set (glob (aws_pattern d y)) \<Longrightarrow>
                  \<exists>rs rest. read_csv f ns = Inr rs \<and> list_all (\<lambda>r. length r = length ns) rs
                    \<and> filter (\<lambda>r. r ! k = Fin 100) rs = raw_of f # rest"
  shows "read_aws g glob read_csv time datadir date_range
           = Inr \<lparr>columns = ns,
                  df_rows = map (\<lambda>f. scaled_row scaled_fields ns (raw_of f))
                                (sort (glob (aws_pattern d y)))\<rparr>"
proof -
  have one: "aws_file g read_csv f = Inr (scaled_row scaled_fields ns (raw_of f))"
    if "f \<in> set (sort (glob (aws_pattern d y)))" for f
  proof -
    from that have "f \<in> set (glob (aws_pattern d y))" by simp
    from files [OF this] obtain rs rest where
      "read_csv f ns = Inr rs" "list_all (\<lambda>r. length r = length ns) rs"
      "filter (\<lambda>r. r ! k = Fin 100) rs = raw_of f # rest"
      by blast
    with pd names dist sub stn show ?thesis by (rule aws_file_ok)
  qed
  have "mapE (aws_file g read_csv) (sort (glob (aws_pattern d y)))
          = Inr (map (\<lambda>f. scaled_row scaled_fields ns (raw_of f)) (sort (glob (aws_pattern d y))))"
    using one by (rule mapE_map)
  with dir ymd pd names show ?thesis
    by (simp add: read_aws_def lookup_name_def lookup_module_def)
qed

lemma raw_length:
  assumes "list_all (\<lambda>r. length r = n) rs" "filter P rs = raw # rest"
  shows "length raw = n"
proof -
  have "raw \<in> set (filter P rs)" using assms(2) by simp
  then have "raw \<in> set rs" by simp
  with assms(1) show ?thesis by (simp add: list_all_iff)
qed

lemma aws_glob_files: "aws_glob (aws_pattern ''/aws/'' ''20180228'') = [aws_file_b, aws_file_a]"
  by (simp add: aws_pattern_def aws_glob_def)

lemma aws_sorted_files: "sort [aws_file_b, aws_file_a] = [aws_file_a, aws_file_b]"
  by (simp add: aws_file_a_def aws_file_b_def)

lemma aws_files_differ: "aws_file_b \<noteq> aws_file_a"
  by (simp add: aws_file_a_def aws_file_b_def)

lemma aws_demo_files:
  assumes "f \<in> set (aws_glob (aws_pattern ''/aws/'' ''20180228''))"
  shows "\<exists>rs rest. aws_csv f aws_names = Inr rs
           \<and> list_all (\<lambda>r. length r = length aws_names) rs
           \<and> filter (\<lambda>r. r ! 1 = Fin 100) rs = aws_raw f # rest"
proof -
  from assms have "f = aws_file_a \<or> f = aws_file_b"
    by (auto simp: aws_glob_files)
  then show ?thesis
  proof
    assume "f = aws_file_a"
    then show ?thesis
      by (simp add: aws_csv_def aws_raw_def aws_row_a_def aws_names_def)
  next
    assume "f = aws_file_b"
    then show ?thesis
      using aws_files_differ
      by (simp add: aws_csv_def aws_raw_def aws_row_b_def aws_names_def)
  qed
qed

lemma aws_demo_stn: "col_index ''stn'' aws_names = Some 1"
  by (simp add: aws_names_def)

lemma aws_demo_sub: "set scaled_fields \<subseteq> set aws_names"
  by (simp add: aws_names_def scaled_fields_def)

lemma aws_demo_distinct: "distinct aws_names"
  by (simp add: aws_names_def)

text \<open>
  Claim C4, amended. When the four names are bound, the column names are distinct and
  hold \<open>stn\<close> and the rescaled columns, and every file found parses into rows of the
  table's width with at least one row of station 100 (\<open>raw_of f\<close> is the first such row
  of file \<open>f\<close>), \<open>read_aws\<close> returns a table in which every cell under one of the
  twelve names of lines 56-67 is the raw cell divided by 10 and every other cell is the
  raw cell. There are twelve rescaled columns, not eleven.
\<close>

theorem read_aws_rescales_twelve:
  assumes dir: "g_aws_dir g = Some d" and ymd: "g_YYYYMMDD g = Some y"
    and pd: "g_pd g" and names: "g_names g = Some ns" and dist: "distinct ns"
    and sub: "set scaled_fields \<subseteq> set ns"
    and stn: "col_index ''stn'' ns = Some k"
    and files: "\<And>f. f \<in> set (glob (aws_pattern d y)) \<Longrightarrow>
                  \<exists>rs rest. read_csv f ns = Inr rs \<and> list_all (\<lambda>r. length r = length ns) rs
                    \<and> filter (\<lambda>r. r ! k = Fin 100) rs = raw_of f # rest"
  shows "\<exists>df. read_aws g glob read_csv time datadir date_range = Inr df
           \<and> columns df = ns
           \<and> length (df_rows df) = length (glob (aws_pattern d y))
           \<and> (\<forall>i < length (df_rows df). \<forall>j < length ns.
                df_rows df ! i ! j =
                  (if ns ! j \<in> set scaled_fields
                   then f_div (raw_of (sort (glob (aws_pattern d y)) ! i) ! j) 10
                   else raw_of (sort (glob (aws_pattern d y)) ! i) ! j))
           \<and> distinct scaled_fields \<and> length scaled_fields = 12"
proof -
  let ?files = "sort (glob (aws_pattern d y))"
  let ?df = "\<lparr>columns = ns, df_rows = map (\<lambda>f. scaled_row scaled_fields ns (raw_of f)) ?files\<rparr>"
  have r: "read_aws g glob read_csv time datadir date_range = Inr ?df"
    using assms by (rule read_aws_ok)
  have len: "length (raw_of f) = length ns" if "f \<in> set ?files" for f
  proof -
    from that have "f \<in> set (glob (aws_pattern d y))" by simp
    from files [OF this] show ?thesis using raw_length by blast
  qed
  have cell: "df_rows ?df ! i ! j =
                  (if ns ! j \<in> set scaled_fields
                   then f_div (raw_of (?files ! i) ! j) 10
                   else raw_of (?files ! i) ! j)"
    if "i < length (df_rows ?df)" "j < length ns" for i j
  proof -
    from that(1) have i: "i < length ?files" by simp
    then have "?files ! i \<in> set ?files" by (rule nth_mem)
    then have "length (raw_of (?files ! i)) = length ns" by (rule len)
    with i that(2) show ?thesis by (simp add: scaled_row_nth)
  qed
  from r cell distinct_scaled_fields show ?thesis
    by (intro exI [of _ ?df]) simp
qed

text \<open>The theorem at the two files: 2700 becomes 270, the station code 100 stays.\<close>

theorem read_aws_rescales_twelve_witness:
  "\<exists>df. read_aws aws_globals aws_glob aws_csv TimeNone [] True = Inr df
     \<and> columns df = aws_names
     \<and> length (df_rows df) = 2
     \<and> df_rows df ! 0 ! 2 = Fin 270
     \<and> df_rows df ! 0 ! 1 = Fin 100
     \<and> df_rows df ! 1 ! 13 = Fin 10"
proof -
  have g: "g_aws_dir aws_globals = Some ''/aws/''" "g_YYYYMMDD aws_globals = Some ''20180228''"
    "g_pd aws_globals" "g_names aws_globals = Some aws_names"
    by (simp_all add: aws_globals_def)
  from read_aws_rescales_twelve [of aws_globals "''/aws/''" "''20180228''" aws_names 1
      aws_glob aws_csv aws_raw TimeNone "[]" True,
      OF g aws_demo_distinct aws_demo_sub aws_demo_stn aws_demo_files]
  obtain df where
    r: "read_aws aws_globals aws_glob aws_csv TimeNone [] True = Inr df"
    and c: "columns df = aws_names"
    and l: "length (df_rows df) = length (aws_glob (aws_pattern ''/aws/'' ''20180228''))"
    and cells: "\<forall>i < length (df_rows df). \<forall>j < length aws_names.
                df_rows df ! i ! j =
                  (if aws_names ! j \<in> set scaled_fields
                   then f_div (aws_raw (sort (aws_glob (aws_pattern ''/aws/'' ''20180228'')) ! i) ! j) 10
                   else aws_raw (sort (aws_glob (aws_pattern ''/aws/'' ''20180228'')) ! i) ! j)"
    by blast
  from l have l2: "length (df_rows df) = 2" by (simp add: aws_glob_files)
  have n: "length aws_names = 14" by (simp add: aws_names_def)
  have c02: "df_rows df ! 0 ! 2 = (if aws_names ! 2 \<in> set scaled_fields
                   then f_div (aws_raw (sort (aws_glob (aws_pattern ''/aws/'' ''20180228'')) ! 0) ! 2) 10
                   else aws_raw (sort (aws_glob (aws_pattern ''/aws/'' ''20180228'')) ! 0) ! 2)"
    using cells l2 n by simp
  have c01: "df_rows df ! 0 ! 1 = (if aws_names ! 1 \<in> set scaled_fields
                   then f_div (aws_raw (sort (aws_glob (aws_pattern ''/aws/'' ''20180228'')) ! 0) ! 1) 10
                   else aws_raw (sort (aws_glob (aws_pattern ''/aws/'' ''20180228'')) ! 0) ! 1)"
    using cells l2 n by simp
  have c113: "df_rows df ! 1 ! 13 = (if aws_names ! 13 \<in> set scaled_fields
                   then f_div (aws_raw (sort (aws_glob (aws_pattern ''/aws/'' ''20180228'')) ! 1) ! 13) 10
                   else aws_raw (sort (aws_glob (aws_pattern ''/aws/'' ''20180228'')) ! 1) ! 13)"
    using cells l2 n by simp
  have v02: "df_rows df ! 0 ! 2 = Fin 270"
    unfolding c02 aws_glob_files aws_sorted_files
    using aws_files_differ
    by (simp add: aws_raw_def aws_row_a_def aws_names_def scaled_fields_def)
  have v01: "df_rows df ! 0 ! 1 = Fin 100"
    unfolding c01 aws_glob_files aws_sorted_files
    using aws_files_differ
    by (simp add: aws_raw_def aws_row_a_def aws_names_def scaled_fields_def)
  have v113: "df_rows df ! 1 ! 13 = Fin 10"
    unfolding c113 aws_glob_files aws_sorted_files
    using aws_files_differ
    by (simp add: aws_raw_def aws_row_b_def aws_names_def scaled_fields_def)
  from r c l2 v02 v01 v113 show ?thesis by blast
qed

text \<open>
  The claim as stated fails: in the second file every cell of the station row is 100,
  and twelve cells of the returned row are 10.
\<close>

theorem read_aws_eleven_counterexample:
  "read_aws aws_globals aws_glob aws_csv TimeNone [] True
     = Inr \<lparr>columns = aws_names,
            df_rows = [[Fin 201802280600, Fin 100, Fin 270, Fin (7/2), Fin (-26/5), Fin 64,
                        Fin (9321/10), Fin (10213/10), Fin 0, Fin (3/2), Fin (1/2), Fin 1,
                        Fin 280, Fin (61/10)],
                       [Fin 201802280601, Fin 100, Fin 10, Fin 10, Fin 10, Fin 10, Fin 10,
                        Fin 10, Fin 10, Fin 10, Fin 10, Fin 10, Fin 10, Fin 10]]\<rparr>
   \<and> aws_csv aws_file_b aws_names = Inr [aws_row_b]
   \<and> count_list aws_row_b (Fin 100) = 13
   \<and> count_list [Fin 201802280601, Fin 100, Fin 10, Fin 10, Fin 10, Fin 10, Fin 10,
                  Fin 10, Fin 10, Fin 10, Fin 10, Fin 10, Fin 10, Fin 10] (Fin 10) = 12
   \<and> length scaled_fields \<noteq> 11"
proof -
  have g: "g_aws_dir aws_globals = Some ''/aws/''" "g_YYYYMMDD aws_globals = Some ''20180228''"
    "g_pd aws_globals" "g_names aws_globals = Some aws_names"
    by (simp_all add: aws_globals_def)
  have "read_aws aws_globals aws_glob aws_csv TimeNone [] True
     = Inr \<lparr>columns = aws_names,
                  df_rows = map (\<lambda>f. scaled_row scaled_fields aws_names (aws_raw f))
                                (sort (aws_glob (aws_pattern ''/aws/'' ''20180228'')))\<rparr>"
    using g aws_demo_distinct aws_demo_sub aws_demo_stn aws_demo_files
    by (rule read_aws_ok)
  also have "map (\<lambda>f. scaled_row scaled_fields aws_names (aws_raw f))
                                (sort (aws_glob (aws_pattern ''/aws/'' ''20180228'')))
     = [scaled_row scaled_fields aws_names aws_row_a, scaled_row scaled_fields aws_names aws_row_b]"
    unfolding aws_glob_files aws_sorted_files using aws_files_differ
    by (simp add: aws_raw_def)
  also have "scaled_row scaled_fields aws_names aws_row_a
     = [Fin 201802280600, Fin 100, Fin 270, Fin (7/2), Fin (-26/5), Fin 64,
                        Fin (9321/10), Fin (10213/10), Fin 0, Fin (3/2), Fin (1/2), Fin 1,
                        Fin 280, Fin (61/10)]"
    by (simp add: scaled_row_def scaled_fields_def aws_names_def aws_row_a_def)
  also have "scaled_row scaled_fields aws_names aws_row_b
     = [Fin 201802280601, Fin 100, Fin 10, Fin 10, Fin 10, Fin 10, Fin 10,
                        Fin 10, Fin 10, Fin 10, Fin 10, Fin 10, Fin 10, Fin 10]"
    by (simp add: scaled_row_def scaled_fields_def aws_names_def aws_row_b_def)
  finally have r: "read_aws aws_globals aws_glob aws_csv TimeNone [] True
     = Inr \<lparr>columns = aws_names,
            df_rows = [[Fin 201802280600, Fin 100, Fin 270, Fin (7/2), Fin (-26/5), Fin 64,
                        Fin (9321/10), Fin (10213/10), Fin 0, Fin (3/2), Fin (1/2), Fin 1,
                        Fin 280, Fin (61/10)],
                       [Fin 201802280601, Fin 100, Fin 10, Fin 10, Fin 10, Fin 10, Fin 10,
                        Fin 10, Fin 10, Fin 10, Fin 10, Fin 10, Fin 10, Fin 10]]\<rparr>" .
  have b: "aws_csv aws_file_b aws_names = Inr [aws_row_b]"
    using aws_files_differ by (simp add: aws_csv_def)
  have c: "count_list aws_row_b (Fin 100) = 13"
    by (simp add: aws_row_b_def)
  have d: "count_list [Fin 201802280601, Fin 100, Fin 10, Fin 10, Fin 10, Fin 10, Fin 10,
                  Fin 10, Fin 10, Fin 10, Fin 10, Fin 10, Fin 10, Fin (10::real)] (Fin 10) = 12"
    by simp
  have e: "length scaled_fields \<noteq> 11"
    by (simp add: scaled_fields_def)
  from r b c d e show ?thesis by blast
qed

text \<open>
  Claim C5. Under the same conditions the returned table has one row per file found,
  \<open>k\<close> being the position of the column \<open>stn\<close>, and the station cell of every row is
  100: of a file with rows of other stations and several rows of station 100, only the
  first row of station 100 is kept.
\<close>

theorem read_aws_one_station_row_per_file:
  assumes dir: "g_aws_dir g = Some d" and ymd: "g_YYYYMMDD g = Some y"
    and pd: "g_pd g" and names: "g_names g = Some ns" and dist: "distinct ns"
    and sub: "set scaled_fields \<subseteq> set ns"
    and stn: "col_index ''stn'' ns = Some k"
    and files: "\<And>f. f \<in> set (glob (aws_pattern d y)) \<Longrightarrow>
                  \<exists>rs rest. read_csv f ns = Inr rs \<and> list_all (\<lambda>r. length r = length ns) rs
                    \<and> filter (\<lambda>r. r ! k = Fin 100) rs = raw_of f # rest"
  shows "\<exists>df. read_aws g glob read_csv time datadir date_range = Inr df
           \<and> length (df_rows df) = length (glob (aws_pattern d y))
           \<and> list_all (\<lambda>row. row ! k = Fin 100) (df_rows df)"
proof -
  let ?files = "sort (glob (aws_pattern d y))"
  let ?df = "\<lparr>columns = ns, df_rows = map (\<lambda>f. scaled_row scaled_fields ns (raw_of f)) ?files\<rparr>"
  have r: "read_aws g glob read_csv time datadir date_range = Inr ?df"
    using assms by (rule read_aws_ok)
  have kk: "k < length ns" "ns ! k = ''stn''"
    using stn col_index_Some by blast+
  have notsc: "''stn'' \<notin> set scaled_fields"
    by (simp add: scaled_fields_def)
  have "scaled_row scaled_fields ns (raw_of f) ! k = Fin 100" if "f \<in> set ?files" for f
  proof -
    from that have "f \<in> set (glob (aws_pattern d y))" by simp
    from files [OF this] obtain rs rest where
      rs: "list_all (\<lambda>r. length r = length ns) rs"
          "filter (\<lambda>r. r ! k = Fin 100) rs = raw_of f # rest"
      by blast
    then have len: "length (raw_of f) = length ns" by (rule raw_length)
    have "raw_of f \<in> set (filter (\<lambda>r. r ! k = Fin 100) rs)" using rs(2) by simp
    then have "raw_of f ! k = Fin 100" by simp
    with len kk notsc show ?thesis by (simp add: scaled_row_nth)
  qed
  then have "list_all (\<lambda>row. row ! k = Fin 100) (df_rows ?df)"
    by (simp add: list_all_iff)
  with r show ?thesis by (intro exI [of _ ?df]) simp
qed

text \<open>The theorem at the two files, the first of which mixes stations.\<close>

theorem read_aws_one_station_row_per_file_witness:
  "\<exists>df. read_aws aws_globals aws_glob aws_csv TimeNone [] True = Inr df
     \<and> length (df_rows df) = 2
     \<and> list_all (\<lambda>row. row ! 1 = Fin 100) (df_rows df)"
proof -
  have g: "g_aws_dir aws_globals = Some ''/aws/''" "g_YYYYMMDD aws_globals = Some ''20180228''"
    "g_pd aws_globals" "g_names aws_globals = Some aws_names"
    by (simp_all add: aws_globals_def)
  from read_aws_one_station_row_per_file [of aws_globals "''/aws/''" "''20180228''" aws_names 1
      aws_glob aws_csv aws_raw TimeNone "[]" True,
      OF g aws_demo_distinct aws_demo_sub aws_demo_stn aws_demo_files]
  show ?thesis by (simp add: aws_glob_files numeral_2_eq_2)
qed

section \<open>read_2dvd_rho: the date range\<close>



















section \<open>read_mxpol_rhi_with_hc: what a returned radar object holds\<close>

lemma add_field_Inr:
  assumes "add_field r name dic rep = Inr r'"
  shows "r' = r\<lparr>radar_fields := (radar_fields r)(name \<mapsto> dic)\<rparr>"
    and "shape (f_data dic) = (nrays r, ngates r)"
  using assms by (auto simp: add_field_def split: if_splits)

lemma lookup_module_Inr: "lookup_module n b = Inr u \<longleftrightarrow> b"
  by (simp add: lookup_module_def)

lemma read_mxpol_Inr:
  assumes "read_mxpol_rhi_with_hc g loadmat open_dataset rhifile_nc hcfile_mat = Inr r"
  obtains b v ag HC radar1 radar2 ZDR Z KDP radar3 radar4 radar5 az azimuth where
    "loadmat hcfile_mat = Inr b" "g_Dataset g" "open_dataset rhifile_nc = Inr v"
    "bundle_get b ''AG'' = Inr ag"
    "most_probable_habit b = Inr HC"
    "add_proportions b (zip list_str list_standard)
       (make_empty_rhi_radar (ncols ag) (nrows ag) 1) = Inr radar1"
    "add_field radar1 ''HC''
              \<lparr>f_data = HC, f_unit = ''-'', f_long_name = hc_long_name,
               f_FillValue = -9999, f_standard_name = ''Hydrometeor classification''\<rparr>
              True = Inr radar2"
    "bool_index_rows (map in_sector (v_Elevation v)) (transpose_arr2 (v_Zdr v)) = Inr ZDR"
    "bool_index_rows (map in_sector (v_Elevation v)) (transpose_arr2 (v_Zh v)) = Inr Z"
    "bool_index_rows (map in_sector (v_Elevation v)) (transpose_arr2 (v_Kdp v)) = Inr KDP"
    "add_field radar2 ''KDP''
              \<lparr>f_data = KDP, f_unit = ''deg/km'',
               f_long_name = ''differential phase shift'',
               f_FillValue = -9999, f_standard_name = ''KDP''\<rparr> False = Inr radar3"
    "add_field radar3 ''ZDR''
              \<lparr>f_data = map_arr2 (\<lambda>x. f_sub x 4.5) ZDR, f_unit = ''dB'',
               f_long_name = ''differential reflectivity'',
               f_FillValue = -9999, f_standard_name = ''ZDR''\<rparr> False = Inr radar4"
    "add_field radar4 ''ZHH''
              \<lparr>f_data = Z, f_unit = ''dBZ'',
               f_long_name = ''horizontal reflectivity'',
               f_FillValue = -9999, f_standard_name = ''ZHH''\<rparr> False = Inr radar5"
    "bool_index (map in_sector (v_Elevation v)) (v_Azimuth v) = Inr az"
    "fix_azimuth az = Inr azimuth"
    "r = radar5\<lparr>range_data := v_Range v,
                   elevation_data := select (map in_sector (v_Elevation v)) (v_Elevation v),
                   azimuth_data := azimuth,
                   fixed_angle_data := azimuth,
                   time_data := v_Time v,
                   time_units := ''seconds since 1970-01-01T00:00:00Z'',
                   longitude_data := [v_Longitude v],
                   latitude_data := [v_Latitude v],
                   instrument_name := ''MXPol'',
                   altitude_data := [v_Altitude v]\<rparr>"
  using assms unfolding read_mxpol_rhi_with_hc_def Let_def bindE_eq_Inr lookup_module_Inr
  by (elim exE conjE) (rule that, assumption+, simp)

lemma py_in_AG: "k \<in> set list_str \<Longrightarrow> py_in k ''AG'' \<Longrightarrow> k = ''AG''"
  by (auto simp: list_str_def)

lemma dstack_keeps_head:
  assumes "dstack st x = Inr st'" "st = Layer2 a \<or> (\<exists>ls. st = Stack3 (a # ls))"
  shows "\<exists>ls. st' = Stack3 (a # ls)"
  using assms by (auto simp: dstack_def split: if_splits)

lemma stack_keeps_head:
  assumes "stack_layers st b = Inr st'"
    and "st = Layer2 a \<or> (\<exists>ls. st = Stack3 (a # ls))"
    and "\<forall>k \<in> set (map fst b). CHR ''_'' \<in> set k \<or> \<not> py_in k ''AG''"
  shows "st' = Layer2 a \<or> (\<exists>ls. st' = Stack3 (a # ls))"
  using assms
proof (induction b arbitrary: st)
  case Nil
  then show ?case by simp
next
  case (Cons kx b)
  obtain k x where kx: "kx = (k, x)" by (cases kx)
  show ?case
  proof (cases "CHR ''_'' \<in> set k")
    case True
    with Cons.prems kx have "stack_layers st b = Inr st'" by simp
    with Cons.prems show ?thesis by (intro Cons.IH [of st]) simp_all
  next
    case False
    with Cons.prems kx have np: "\<not> py_in k ''AG''" by simp
    with Cons.prems(1) kx False obtain st2 where
      d: "dstack st x = Inr st2" and s: "stack_layers st2 b = Inr st'"
      by (auto split: sum.splits)
    from dstack_keeps_head [OF d Cons.prems(2)] have "\<exists>ls. st2 = Stack3 (a # ls)" .
    with s Cons.prems(3) show ?thesis by (intro Cons.IH [of st2]) simp_all
  qed
qed

lemma stack_from_unbound:
  assumes "stack_layers Unbound b = Inr st'"
    and "distinct (map fst b)"
    and "\<forall>k \<in> set (map fst b). CHR ''_'' \<in> set k \<or> k \<in> set list_str"
    and "map_of b ''AG'' = Some ag"
  shows "st' = Layer2 ag \<or> (\<exists>ls. st' = Stack3 (ag # ls))"
  using assms
proof (induction b)
  case Nil
  then show ?case by simp
next
  case (Cons kx b)
  obtain k x where kx: "kx = (k, x)" by (cases kx)
  show ?case
  proof (cases "CHR ''_'' \<in> set k")
    case True
    then have "k \<noteq> ''AG''" by auto
    with Cons.prems kx True show ?thesis by (intro Cons.IH) simp_all
  next
    case False
    show ?thesis
    proof (cases "py_in k ''AG''")
      case True
      with Cons.prems(3) kx False have k: "k = ''AG''" by (simp add: py_in_AG)
      with Cons.prems(4) kx have x: "x = ag" by simp
      from Cons.prems(1) kx False True have s: "stack_layers (Layer2 x) b = Inr st'" by simp
      have "\<forall>k' \<in> set (map fst b). CHR ''_'' \<in> set k' \<or> \<not> py_in k' ''AG''"
      proof
        fix k' assume k': "k' \<in> set (map fst b)"
        from Cons.prems(2) kx k have "''AG'' \<notin> set (map fst b)" by simp
        with k' have "k' \<noteq> ''AG''" by blast
        moreover from k' Cons.prems(3) have "CHR ''_'' \<in> set k' \<or> k' \<in> set list_str" by auto
        ultimately show "CHR ''_'' \<in> set k' \<or> \<not> py_in k' ''AG''"
          using py_in_AG by blast
      qed
      with s x show ?thesis by (intro stack_keeps_head [of "Layer2 ag" b st' ag]) simp_all
    next
      case np: False
      with Cons.prems(1) kx False show ?thesis by (simp add: dstack_def)
    qed
  qed
qed

lemma most_probable_habit_Inr:
  assumes "most_probable_habit b = Inr HC"
  obtains ls where "stack_layers Unbound b = Inr (Stack3 ls)"
    and "HC = \<lparr>ncols = ncols (hd ls),
              rows = map (\<lambda>r. map (\<lambda>c. hc_cell ls r c) [0..<ncols (hd ls)]) [0..<nrows (hd ls)]\<rparr>"
proof -
  from assms obtain st where st: "stack_layers Unbound b = Inr st"
    and c: "(case st of
         Unbound \<Rightarrow> Inl (UnboundLocalError ''HC3d_proportion'')
       | Layer2 a \<Rightarrow> Inl AxisError
       | Stack3 ls \<Rightarrow>
           Inr \<lparr>ncols = ncols (hd ls),
                rows = map (\<lambda>r. map (\<lambda>c. hc_cell ls r c) [0..<ncols (hd ls)])
                           [0..<nrows (hd ls)]\<rparr>) = Inr HC"
    unfolding most_probable_habit_def bindE_eq_Inr by blast
  show ?thesis
  proof (cases st)
    case Unbound
    with c show ?thesis by simp
  next
    case (Layer2 a)
    with c show ?thesis by simp
  next
    case (Stack3 ls)
    with c st show ?thesis by (intro that [of ls]) simp_all
  qed
qed

lemma at2_hc:
  assumes "HC = \<lparr>ncols = n, rows = map (\<lambda>r. map (\<lambda>c. hc_cell ls r c) [0..<n]) [0..<m]\<rparr>"
    and "i < m" "j < n"
  shows "at2 HC i j = hc_cell ls i j"
  using assms by (simp add: at2_def)

lemma hc_nan_where_first_layer_nan:
  assumes hc: "most_probable_habit b = Inr HC"
    and keys: "distinct (map fst b)"
      "\<forall>k \<in> set (map fst b). CHR ''_'' \<in> set k \<or> k \<in> set list_str"
    and ag: "map_of b ''AG'' = Some ag"
    and gate: "i < nrows ag" "j < ncols ag" "isnan (at2 ag i j)"
  shows "at2 HC i j = NaN"
proof -
  from hc obtain ls where st: "stack_layers Unbound b = Inr (Stack3 ls)"
    and HC: "HC = \<lparr>ncols = ncols (hd ls),
              rows = map (\<lambda>r. map (\<lambda>c. hc_cell ls r c) [0..<ncols (hd ls)]) [0..<nrows (hd ls)]\<rparr>"
    by (rule most_probable_habit_Inr)
  from stack_from_unbound [OF st keys ag] obtain ls' where ls: "ls = ag # ls'" by auto
  with HC gate have "at2 HC i j = hc_cell ls i j" by (intro at2_hc [of HC "ncols ag" ls "nrows ag"]) simp_all
  also have "\<dots> = NaN" using gate(3) ls by (simp add: hc_cell_def)
  finally show ?thesis .
qed

lemma radar_HC_field:
  assumes "read_mxpol_rhi_with_hc g loadmat open_dataset rhifile_nc hcfile_mat = Inr r"
  shows "\<exists>b HC hc. loadmat hcfile_mat = Inr b \<and> most_probable_habit b = Inr HC
           \<and> radar_fields r ''HC'' = Some hc \<and> f_data hc = HC"
proof -
  from assms obtain b v ag HC radar1 radar2 ZDR Z KDP radar3 radar4 radar5 az azimuth where
    f: "loadmat hcfile_mat = Inr b" "g_Dataset g" "open_dataset rhifile_nc = Inr v"
    "bundle_get b ''AG'' = Inr ag"
    "most_probable_habit b = Inr HC"
    "add_proportions b (zip list_str list_standard)
       (make_empty_rhi_radar (ncols ag) (nrows ag) 1) = Inr radar1"
    "add_field radar1 ''HC''
              \<lparr>f_data = HC, f_unit = ''-'', f_long_name = hc_long_name,
               f_FillValue = -9999, f_standard_name = ''Hydrometeor classification''\<rparr>
              True = Inr radar2"
    "bool_index_rows (map in_sector (v_Elevation v)) (transpose_arr2 (v_Zdr v)) = Inr ZDR"
    "bool_index_rows (map in_sector (v_Elevation v)) (transpose_arr2 (v_Zh v)) = Inr Z"
    "bool_index_rows (map in_sector (v_Elevation v)) (transpose_arr2 (v_Kdp v)) = Inr KDP"
    "add_field radar2 ''KDP''
              \<lparr>f_data = KDP, f_unit = ''deg/km'',
               f_long_name = ''differential phase shift'',
               f_FillValue = -9999, f_standard_name = ''KDP''\<rparr> False = Inr radar3"
    "add_field radar3 ''ZDR''
              \<lparr>f_data = map_arr2 (\<lambda>x. f_sub x 4.5) ZDR, f_unit = ''dB'',
               f_long_name = ''differential reflectivity'',
               f_FillValue = -9999, f_standard_name = ''ZDR''\<rparr> False = Inr radar4"
    "add_field radar4 ''ZHH''
              \<lparr>f_data = Z, f_unit = ''dBZ'',
               f_long_name = ''horizontal reflectivity'',
               f_FillValue = -9999, f_standard_name = ''ZHH''\<rparr> False = Inr radar5"
    "bool_index (map in_sector (v_Elevation v)) (v_Azimuth v) = Inr az"
    "fix_azimuth az = Inr azimuth"
    "r = radar5\<lparr>range_data := v_Range v,
                   elevation_data := select (map in_sector (v_Elevation v)) (v_Elevation v),
                   azimuth_data := azimuth,
                   fixed_angle_data := azimuth,
                   time_data := v_Time v,
                   time_units := ''seconds since 1970-01-01T00:00:00Z'',
                   longitude_data := [v_Longitude v],
                   latitude_data := [v_Latitude v],
                   instrument_name := ''MXPol'',
                   altitude_data := [v_Altitude v]\<rparr>"
    by (rule read_mxpol_Inr)
  from add_field_Inr(1) [OF f(7)] add_field_Inr(1) [OF f(11)] add_field_Inr(1) [OF f(12)]
    add_field_Inr(1) [OF f(13)] f(16)
  have "radar_fields r ''HC'' = Some \<lparr>f_data = HC, f_unit = ''-'', f_long_name = hc_long_name,
               f_FillValue = -9999, f_standard_name = ''Hydrometeor classification''\<rparr>"
    by simp
  with f(1,5) show ?thesis by simp
qed

lemma select_map_filter: "select (map P xs) xs = filter P xs"
  by (induction xs) (simp_all add: select_def)

lemma length_select:
  "length m = length xs \<Longrightarrow> length (select m xs) = length (filter id m)"
proof (induction m arbitrary: xs)
  case Nil
  then show ?case by (simp add: select_def)
next
  case (Cons a m)
  then obtain x xs' where "xs = x # xs'" by (cases xs) auto
  with Cons show ?case by (simp add: select_def)
qed

lemma bool_index_Inr:
  assumes "bool_index m xs = Inr ys"
  shows "ys = select m xs" and "length ys = length (filter id m)"
  using assms by (auto simp: bool_index_def length_select split: if_splits)

lemma bool_index_rows_Inr:
  assumes "bool_index_rows m a = Inr a'"
  shows "rows a' = select m (rows a)" and "nrows a' = length (filter id m)" and "ncols a' = ncols a"
  using assms bool_index_Inr [of m "rows a"]
  by (auto simp: bool_index_rows_def bindE_eq_Inr nrows_def)

lemma fix_azimuth_Inr:
  assumes "fix_azimuth az = Inr azimuth"
  shows "azimuth = az \<or> azimuth = map (\<lambda>x. f_add x 360) az"
  using assms by (auto simp: fix_azimuth_def split: list.splits if_splits)

lemma add_proportions_Inr:
  assumes "add_proportions b ps r0 = Inr r1"
  shows "nrays r1 = nrays r0 \<and> ngates r1 = ngates r0
     \<and> (\<forall>s. s \<notin> fst ` set ps \<longrightarrow> radar_fields r1 s = radar_fields r0 s)
     \<and> (\<forall>s \<in> fst ` set ps. \<exists>f a. radar_fields r1 s = Some f \<and> map_of b s = Some a
            \<and> f_data f = a \<and> shape a = (nrays r0, ngates r0))"
  using assms
proof (induction ps arbitrary: r0)
  case Nil
  then show ?case by simp
next
  case (Cons p ps)
  obtain str standard where p: "p = (str, standard)" by (cases p)
  let ?fld = "\<lambda>a. \<lparr>f_data = a, f_unit = ''-'', f_long_name = ''Proportion of the '' @ str,
               f_FillValue = -9999, f_standard_name = standard\<rparr>"
  from Cons.prems p obtain a r' where
    a: "bundle_get b str = Inr a"
    and af: "add_field r0 str (?fld a) True = Inr r'"
    and rest: "add_proportions b ps r' = Inr r1"
    by (auto simp: bindE_eq_Inr)
  from a have ma: "map_of b str = Some a"
    by (auto simp: bundle_get_def split: option.splits)
  from add_field_Inr [OF af] have r': "r' = r0\<lparr>radar_fields := (radar_fields r0)(str \<mapsto> ?fld a)\<rparr>"
    and sh: "shape a = (nrays r0, ngates r0)" by simp_all
  from Cons.IH [OF rest] have ih: "nrays r1 = nrays r'" "ngates r1 = ngates r'"
    "\<forall>s. s \<notin> fst ` set ps \<longrightarrow> radar_fields r1 s = radar_fields r' s"
    "\<forall>s \<in> fst ` set ps. \<exists>f a. radar_fields r1 s = Some f \<and> map_of b s = Some a
            \<and> f_data f = a \<and> shape a = (nrays r', ngates r')"
    by blast+
  have n: "nrays r' = nrays r0" "ngates r' = ngates r0" using r' by simp_all
  have one: "\<exists>f a. radar_fields r1 s = Some f \<and> map_of b s = Some a
            \<and> f_data f = a \<and> shape a = (nrays r0, ngates r0)" if "s \<in> fst ` set (p # ps)" for s
  proof (cases "s \<in> fst ` set ps")
    case True
    with ih(4) obtain fl a where "radar_fields r1 s = Some fl" "map_of b s = Some a"
      "f_data fl = a" "shape a = (nrays r', ngates r')"
      by blast
    with n show ?thesis by simp
  next
    case False
    with that p have s: "s = str" by auto
    from False ih(3) have "radar_fields r1 s = radar_fields r' s" by blast
    with s r' have "radar_fields r1 s = Some (?fld a)" by simp
    with ma sh s show ?thesis by simp
  qed
  have other: "radar_fields r1 s = radar_fields r0 s" if "s \<notin> fst ` set (p # ps)" for s
  proof -
    from that p have "s \<noteq> str" "s \<notin> fst ` set ps" by auto
    with ih(3) r' show ?thesis by simp
  qed
  from ih(1,2) n one other show ?case by simp
qed

text \<open>
  With the names that the module binds, the reader stops at line 169: \<open>Dataset\<close> is
  not imported. The claims on the reader are settled with \<open>Dataset\<close> bound.
\<close>

lemma read_mxpol_module_globals:
  "loadmat hcfile_mat = Inr b \<Longrightarrow>
     read_mxpol_rhi_with_hc module_globals loadmat open_dataset rhifile_nc hcfile_mat
       = Inl (NameError ''Dataset'')"
  by (simp add: read_mxpol_rhi_with_hc_def module_globals_def lookup_module_def)

text \<open>The runs on the concrete inputs.\<close>

lemma upt_0_2: "[0..<2] = [0, 1]"
  by (simp add: numeral_2_eq_2)

lemma upt_0_1: "[0..<1] = [0]"
  by simp

lemmas mx_defs = upt_0_2 upt_0_1 mx_loadmat_def mx_dataset_def mx_globals_def mx_volume_def
  hc_documented_def hc_rn_second_def hc_ag_nan_def layer_def
  read_mxpol_rhi_with_hc_def lookup_module_def bundle_get_def most_probable_habit_def
  dstack_def shape_def nrows_def hc_cell_def at2_def argmax_def
  list_str_def list_standard_def add_field_def make_empty_rhi_radar_def
  bool_index_rows_def bool_index_def select_def in_sector_def transpose_arr2_def
  map_arr2_def fix_azimuth_def Let_def

lemma mph_doc: "most_probable_habit hc_documented = Inr \<lparr>ncols = 2, rows = [[Fin 5, Fin 0]]\<rparr>"
  by (simp add: mx_defs)

lemma mph_rn: "most_probable_habit hc_rn_second = Inr \<lparr>ncols = 2, rows = [[Fin 1, Fin 0]]\<rparr>"
  by (simp add: mx_defs)

lemma mph_nan: "most_probable_habit hc_ag_nan = Inr \<lparr>ncols = 2, rows = [[NaN, Fin 0]]\<rparr>"
  by (simp add: mx_defs)

lemma mx_run_doc:
  "read_mxpol_rhi_with_hc mx_globals mx_loadmat mx_dataset ''rhi.nc'' ''hc.mat''
     = Inr (projr (read_mxpol_rhi_with_hc mx_globals mx_loadmat mx_dataset ''rhi.nc'' ''hc.mat''))"
proof -
  have "\<not> isl (read_mxpol_rhi_with_hc mx_globals mx_loadmat mx_dataset ''rhi.nc'' ''hc.mat'')"
    by (simp add: mx_defs)
  then show ?thesis by simp
qed

lemma mx_run_nan:
  "read_mxpol_rhi_with_hc mx_globals mx_loadmat mx_dataset ''rhi.nc'' ''nan.mat''
     = Inr (projr (read_mxpol_rhi_with_hc mx_globals mx_loadmat mx_dataset ''rhi.nc'' ''nan.mat''))"
proof -
  have "\<not> isl (read_mxpol_rhi_with_hc mx_globals mx_loadmat mx_dataset ''rhi.nc'' ''nan.mat'')"
    by (simp add: mx_defs)
  then show ?thesis by simp
qed

lemma mx_vol: "mx_dataset ''rhi.nc'' = Inr mx_volume"
  by (simp add: mx_dataset_def)

lemma mx_bun_doc: "mx_loadmat ''hc.mat'' = Inr hc_documented"
  by (simp add: mx_loadmat_def)

lemma mx_bun_nan: "mx_loadmat ''nan.mat'' = Inr hc_ag_nan"
  by (simp add: mx_loadmat_def)

text \<open>
  Claim C1, amended. In every radar object that the reader returns, the mask of the
  elevations strictly between 5 and 175 degrees is applied to the elevation, the azimuth
  (moved by 360 as a whole when its first entry is negative), the fixed angle and the
  rows of ZHH, ZDR (less 4.5) and KDP: each holds the entries of the rays that the mask
  keeps, in ray order, and every returned elevation is strictly between 5 and 175. The
  eight proportion fields and HC are the layers of the bundle as loaded and the array
  computed from them; the mask is not applied to them, and \<open>add_field\<close> accepts them
  only with one row per ray kept.
\<close>

theorem read_mxpol_masks_ray_fields:
  assumes ret: "read_mxpol_rhi_with_hc g loadmat open_dataset rhifile_nc hcfile_mat = Inr r"
    and vol: "open_dataset rhifile_nc = Inr vol"
    and bun: "loadmat hcfile_mat = Inr bun"
  shows "elevation_data r = select (map in_sector (v_Elevation vol)) (v_Elevation vol)
     \<and> list_all in_sector (elevation_data r)
     \<and> (azimuth_data r = select (map in_sector (v_Elevation vol)) (v_Azimuth vol)
        \<or> azimuth_data r
             = map (\<lambda>x. f_add x 360) (select (map in_sector (v_Elevation vol)) (v_Azimuth vol)))
     \<and> fixed_angle_data r = azimuth_data r
     \<and> (\<exists>kdp. radar_fields r ''KDP'' = Some kdp
          \<and> rows (f_data kdp)
               = select (map in_sector (v_Elevation vol)) (rows (transpose_arr2 (v_Kdp vol))))
     \<and> (\<exists>zhh. radar_fields r ''ZHH'' = Some zhh
          \<and> rows (f_data zhh)
               = select (map in_sector (v_Elevation vol)) (rows (transpose_arr2 (v_Zh vol))))
     \<and> (\<exists>zdr. radar_fields r ''ZDR'' = Some zdr
          \<and> rows (f_data zdr)
               = map (map (\<lambda>x. f_sub x 4.5))
                   (select (map in_sector (v_Elevation vol)) (rows (transpose_arr2 (v_Zdr vol)))))
     \<and> list_all (\<lambda>s. \<exists>f a. radar_fields r s = Some f \<and> map_of bun s = Some a \<and> f_data f = a
                         \<and> nrows a = length (elevation_data r)) list_str
     \<and> (\<exists>hc. radar_fields r ''HC'' = Some hc \<and> most_probable_habit bun = Inr (f_data hc)
          \<and> nrows (f_data hc) = length (elevation_data r))"
proof -
  from ret obtain b v ag HC radar1 radar2 ZDR Z KDP radar3 radar4 radar5 az azimuth where
    f: "loadmat hcfile_mat = Inr b" "g_Dataset g" "open_dataset rhifile_nc = Inr v"
    "bundle_get b ''AG'' = Inr ag"
    "most_probable_habit b = Inr HC"
    "add_proportions b (zip list_str list_standard)
       (make_empty_rhi_radar (ncols ag) (nrows ag) 1) = Inr radar1"
    "add_field radar1 ''HC''
              \<lparr>f_data = HC, f_unit = ''-'', f_long_name = hc_long_name,
               f_FillValue = -9999, f_standard_name = ''Hydrometeor classification''\<rparr>
              True = Inr radar2"
    "bool_index_rows (map in_sector (v_Elevation v)) (transpose_arr2 (v_Zdr v)) = Inr ZDR"
    "bool_index_rows (map in_sector (v_Elevation v)) (transpose_arr2 (v_Zh v)) = Inr Z"
    "bool_index_rows (map in_sector (v_Elevation v)) (transpose_arr2 (v_Kdp v)) = Inr KDP"
    "add_field radar2 ''KDP''
              \<lparr>f_data = KDP, f_unit = ''deg/km'',
               f_long_name = ''differential phase shift'',
               f_FillValue = -9999, f_standard_name = ''KDP''\<rparr> False = Inr radar3"
    "add_field radar3 ''ZDR''
              \<lparr>f_data = map_arr2 (\<lambda>x. f_sub x 4.5) ZDR, f_unit = ''dB'',
               f_long_name = ''differential reflectivity'',
               f_FillValue = -9999, f_standard_name = ''ZDR''\<rparr> False = Inr radar4"
    "add_field radar4 ''ZHH''
              \<lparr>f_data = Z, f_unit = ''dBZ'',
               f_long_name = ''horizontal reflectivity'',
               f_FillValue = -9999, f_standard_name = ''ZHH''\<rparr> False = Inr radar5"
    "bool_index (map in_sector (v_Elevation v)) (v_Azimuth v) = Inr az"
    "fix_azimuth az = Inr azimuth"
    "r = radar5\<lparr>range_data := v_Range v,
                   elevation_data := select (map in_sector (v_Elevation v)) (v_Elevation v),
                   azimuth_data := azimuth,
                   fixed_angle_data := azimuth,
                   time_data := v_Time v,
                   time_units := ''seconds since 1970-01-01T00:00:00Z'',
                   longitude_data := [v_Longitude v],
                   latitude_data := [v_Latitude v],
                   instrument_name := ''MXPol'',
                   altitude_data := [v_Altitude v]\<rparr>"
    by (rule read_mxpol_Inr)
  from f(1,3) vol bun have bv: "b = bun" "v = vol" by simp_all
  let ?wh = "map in_sector (v_Elevation vol)"
  note r2 = add_field_Inr [OF f(7)]
  note r3 = add_field_Inr [OF f(11)]
  note r4 = add_field_Inr [OF f(12)]
  note r5 = add_field_Inr [OF f(13)]
  note ap = add_proportions_Inr [OF f(6)]
  have flds: "radar_fields r = (radar_fields radar1)
       (''HC'' \<mapsto> \<lparr>f_data = HC, f_unit = ''-'', f_long_name = hc_long_name,
               f_FillValue = -9999, f_standard_name = ''Hydrometeor classification''\<rparr>,
        ''KDP'' \<mapsto> \<lparr>f_data = KDP, f_unit = ''deg/km'',
               f_long_name = ''differential phase shift'',
               f_FillValue = -9999, f_standard_name = ''KDP''\<rparr>,
        ''ZDR'' \<mapsto> \<lparr>f_data = map_arr2 (\<lambda>x. f_sub x 4.5) ZDR, f_unit = ''dB'',
               f_long_name = ''differential reflectivity'',
               f_FillValue = -9999, f_standard_name = ''ZDR''\<rparr>,
        ''ZHH'' \<mapsto> \<lparr>f_data = Z, f_unit = ''dBZ'',
               f_long_name = ''horizontal reflectivity'',
               f_FillValue = -9999, f_standard_name = ''ZHH''\<rparr>)"
    using r2(1) r3(1) r4(1) r5(1) f(16) by simp
  have el: "elevation_data r = select ?wh (v_Elevation vol)"
    using f(16) bv by simp
  then have el': "elevation_data r = filter in_sector (v_Elevation vol)"
    by (simp add: select_map_filter)
  have cnt: "length (elevation_data r) = length (filter id ?wh)"
    unfolding el by (rule length_select) simp
  have dims: "nrays radar1 = nrows ag" "ngates radar1 = ncols ag"
    using ap by (simp_all add: make_empty_rhi_radar_def)
  have kdp_rows: "rows KDP = select ?wh (rows (transpose_arr2 (v_Kdp vol)))"
    and kdp_n: "nrows KDP = length (filter id ?wh)"
    using bool_index_rows_Inr [OF f(10)] bv by simp_all
  have z_rows: "rows Z = select ?wh (rows (transpose_arr2 (v_Zh vol)))"
    using bool_index_rows_Inr [OF f(9)] bv by simp
  have zdr_rows: "rows ZDR = select ?wh (rows (transpose_arr2 (v_Zdr vol)))"
    using bool_index_rows_Inr [OF f(8)] bv by simp
  have "shape KDP = (nrays radar2, ngates radar2)" using r3(2) by simp
  then have "nrows KDP = nrays radar1" using r2(1) by (simp add: shape_def)
  with kdp_n cnt dims have rays: "nrows ag = length (elevation_data r)" by simp
  have "shape HC = (nrays radar1, ngates radar1)" using r2(2) by simp
  with dims rays have hc_n: "nrows HC = length (elevation_data r)" by (simp add: shape_def)
  have az: "azimuth = select ?wh (v_Azimuth vol)
              \<or> azimuth = map (\<lambda>x. f_add x 360) (select ?wh (v_Azimuth vol))"
    using fix_azimuth_Inr [OF f(15)] bool_index_Inr(1) [OF f(14)] bv by simp
  have azr: "azimuth_data r = azimuth" "fixed_angle_data r = azimuth"
    using f(16) by simp_all
  have props: "\<exists>f a. radar_fields r s = Some f \<and> map_of bun s = Some a \<and> f_data f = a
                 \<and> nrows a = length (elevation_data r)" if "s \<in> set list_str" for s
  proof -
    from that have "s \<in> fst ` set (zip list_str list_standard)"
      by (auto simp: list_str_def list_standard_def)
    with ap obtain fl a where fa: "radar_fields radar1 s = Some fl" "map_of b s = Some a"
      "f_data fl = a" "shape a = (nrays (make_empty_rhi_radar (ncols ag) (nrows ag) 1),
                                  ngates (make_empty_rhi_radar (ncols ag) (nrows ag) 1))"
      by blast
    from that have ne: "s \<noteq> ''HC''" "s \<noteq> ''KDP''" "s \<noteq> ''ZDR''" "s \<noteq> ''ZHH''"
      by (auto simp: list_str_def)
    with flds fa(1) have "radar_fields r s = Some fl" by simp
    moreover from fa(4) rays have "nrows a = length (elevation_data r)"
      by (simp add: shape_def make_empty_rhi_radar_def)
    ultimately show ?thesis using fa(2,3) bv by simp
  qed
  have c2: "list_all in_sector (elevation_data r)"
    using el' by (simp add: list_all_iff)
  have c3: "azimuth_data r = select ?wh (v_Azimuth vol)
        \<or> azimuth_data r = map (\<lambda>x. f_add x 360) (select ?wh (v_Azimuth vol))"
    using az azr by simp
  have c4: "fixed_angle_data r = azimuth_data r"
    using azr by simp
  have c5: "\<exists>kdp. radar_fields r ''KDP'' = Some kdp
          \<and> rows (f_data kdp) = select ?wh (rows (transpose_arr2 (v_Kdp vol)))"
    using kdp_rows by (simp add: flds)
  have c6: "\<exists>zhh. radar_fields r ''ZHH'' = Some zhh
          \<and> rows (f_data zhh) = select ?wh (rows (transpose_arr2 (v_Zh vol)))"
    using z_rows by (simp add: flds)
  have c7: "\<exists>zdr. radar_fields r ''ZDR'' = Some zdr
          \<and> rows (f_data zdr)
               = map (map (\<lambda>x. f_sub x 4.5)) (select ?wh (rows (transpose_arr2 (v_Zdr vol))))"
    using zdr_rows by (simp add: flds map_arr2_def)
  have c8: "list_all (\<lambda>s. \<exists>f a. radar_fields r s = Some f \<and> map_of bun s = Some a \<and> f_data f = a
                         \<and> nrows a = length (elevation_data r)) list_str"
    unfolding list_all_iff using props by blast
  have c9: "\<exists>hc. radar_fields r ''HC'' = Some hc \<and> most_probable_habit bun = Inr (f_data hc)
          \<and> nrows (f_data hc) = length (elevation_data r)"
    using hc_n f(5) bv by (simp add: flds)
  show ?thesis
    by (rule conjI [OF el conjI [OF c2 conjI [OF c3 conjI [OF c4 conjI [OF c5
          conjI [OF c6 conjI [OF c7 conjI [OF c8 c9]]]]]]]])
qed

text \<open>The theorem at the volume of two rays, of which the mask keeps the second.\<close>

theorem read_mxpol_masks_ray_fields_witness:
  "read_mxpol_rhi_with_hc mx_globals mx_loadmat mx_dataset ''rhi.nc'' ''hc.mat''
     = Inr (projr (read_mxpol_rhi_with_hc mx_globals mx_loadmat mx_dataset ''rhi.nc'' ''hc.mat''))
   \<and> mx_dataset ''rhi.nc'' = Inr mx_volume
   \<and> mx_loadmat ''hc.mat'' = Inr hc_documented
   \<and> elevation_data (projr (read_mxpol_rhi_with_hc mx_globals mx_loadmat mx_dataset
                              ''rhi.nc'' ''hc.mat'')) = [Fin 10]
   \<and> (\<exists>kdp. radar_fields (projr (read_mxpol_rhi_with_hc mx_globals mx_loadmat mx_dataset
                                    ''rhi.nc'' ''hc.mat'')) ''KDP'' = Some kdp
          \<and> rows (f_data kdp) = [[Fin 2, Fin 4]])
   \<and> (\<exists>zdr. radar_fields (projr (read_mxpol_rhi_with_hc mx_globals mx_loadmat mx_dataset
                                    ''rhi.nc'' ''hc.mat'')) ''ZDR'' = Some zdr
          \<and> rows (f_data zdr) = [[Fin (3/2), Fin (7/2)]])"
proof -
  let ?r = "projr (read_mxpol_rhi_with_hc mx_globals mx_loadmat mx_dataset ''rhi.nc'' ''hc.mat'')"
  note t = read_mxpol_masks_ray_fields [OF mx_run_doc mx_vol mx_bun_doc]
  have wh: "map in_sector (v_Elevation mx_volume) = [False, True]"
    by (simp add: mx_volume_def in_sector_def)
  from t have "elevation_data ?r = select (map in_sector (v_Elevation mx_volume)) (v_Elevation mx_volume)"
    by blast
  then have a: "elevation_data ?r = [Fin 10]"
    unfolding wh by (simp add: select_def mx_volume_def)
  from t have "\<exists>kdp. radar_fields ?r ''KDP'' = Some kdp
          \<and> rows (f_data kdp)
               = select (map in_sector (v_Elevation mx_volume)) (rows (transpose_arr2 (v_Kdp mx_volume)))"
    by blast
  then have b: "\<exists>kdp. radar_fields ?r ''KDP'' = Some kdp \<and> rows (f_data kdp) = [[Fin 2, Fin 4]]"
    unfolding wh by (simp add: select_def mx_volume_def transpose_arr2_def upt_0_2)
  from t have "\<exists>zdr. radar_fields ?r ''ZDR'' = Some zdr
          \<and> rows (f_data zdr)
               = map (map (\<lambda>x. f_sub x 4.5))
                   (select (map in_sector (v_Elevation mx_volume)) (rows (transpose_arr2 (v_Zdr mx_volume))))"
    by blast
  then have c: "\<exists>zdr. radar_fields ?r ''ZDR'' = Some zdr \<and> rows (f_data zdr) = [[Fin (3/2), Fin (7/2)]]"
    unfolding wh by (simp add: select_def mx_volume_def transpose_arr2_def upt_0_2)
  from mx_run_doc mx_vol mx_bun_doc a b c show ?thesis by blast
qed

text \<open>
  The claim as stated fails: the volume has rays of elevation 3 and 10, the returned
  elevation holds the second only, and the returned time still holds both entries; the
  field \<open>AG\<close> is the bundle's layer, untouched.
\<close>

theorem read_mxpol_time_unmasked_counterexample:
  "\<not> isl (read_mxpol_rhi_with_hc mx_globals mx_loadmat mx_dataset ''rhi.nc'' ''hc.mat'')
   \<and> v_Elevation mx_volume = [Fin 3, Fin 10]
   \<and> v_Time mx_volume = [Fin 0, Fin 1]
   \<and> elevation_data (projr (read_mxpol_rhi_with_hc mx_globals mx_loadmat mx_dataset
                              ''rhi.nc'' ''hc.mat'')) = [Fin 10]
   \<and> time_data (projr (read_mxpol_rhi_with_hc mx_globals mx_loadmat mx_dataset
                         ''rhi.nc'' ''hc.mat'')) = [Fin 0, Fin 1]
   \<and> select (map in_sector (v_Elevation mx_volume)) (v_Time mx_volume) = [Fin 1]
   \<and> map_option f_data (radar_fields (projr (read_mxpol_rhi_with_hc mx_globals mx_loadmat
                                             mx_dataset ''rhi.nc'' ''hc.mat'')) ''AG'')
       = map_of hc_documented ''AG''"
  by (simp add: mx_defs)

text \<open>
  Claim C2. The index stored in HC is the position of the largest layer in the order in
  which the bundle iterates, not in the order AG(0) ... WS(7) that the field's own
  description gives: with \<open>RN\<close> stored second and largest at the first gate, HC is 1
  there, and 5 only when the bundle stores its variables in the documented order.
\<close>

theorem hc_index_follows_bundle_order:
  "most_probable_habit hc_rn_second = Inr \<lparr>ncols = 2, rows = [[Fin 1, Fin 0]]\<rparr>
   \<and> \<not> isl (read_mxpol_rhi_with_hc mx_globals mx_loadmat mx_dataset ''rhi.nc'' ''rn.mat'')
   \<and> map_option f_data (radar_fields (projr (read_mxpol_rhi_with_hc mx_globals mx_loadmat
                                             mx_dataset ''rhi.nc'' ''rn.mat'')) ''HC'')
       = Some \<lparr>ncols = 2, rows = [[Fin 1, Fin 0]]\<rparr>
   \<and> map_option f_long_name (radar_fields (projr (read_mxpol_rhi_with_hc mx_globals mx_loadmat
                                             mx_dataset ''rhi.nc'' ''rn.mat'')) ''HC'')
       = Some ''Most probable habit. AG(0), CR(1), IH(2), LR(3), MH(4), RN(5), RP(6), WS(7)''
   \<and> most_probable_habit hc_documented = Inr \<lparr>ncols = 2, rows = [[Fin 5, Fin 0]]\<rparr>"
  by (simp add: mx_defs hc_long_name_def)

text \<open>
  Claim C3. For a bundle whose keys are distinct and are habit codes or reserved keys
  (with an underscore), in every radar object that the reader returns the HC field is
  NaN at every gate where the layer \<open>AG\<close> is NaN, whatever the other layers hold there.
\<close>

theorem hc_nan_where_ag_nan:
  assumes ret: "read_mxpol_rhi_with_hc g loadmat open_dataset rhifile_nc hcfile_mat = Inr r"
    and b: "loadmat hcfile_mat = Inr b"
    and keys: "distinct (map fst b)"
      "\<forall>k \<in> set (map fst b). CHR ''_'' \<in> set k \<or> k \<in> set list_str"
    and ag: "map_of b ''AG'' = Some ag"
    and gate: "i < nrows ag" "j < ncols ag" "isnan (at2 ag i j)"
  shows "\<exists>hc. radar_fields r ''HC'' = Some hc \<and> at2 (f_data hc) i j = NaN"
proof -
  from radar_HC_field [OF ret] b obtain HC hc where
    h: "most_probable_habit b = Inr HC" "radar_fields r ''HC'' = Some hc" "f_data hc = HC"
    by auto
  from h(1) keys ag gate have "at2 HC i j = NaN"
    by (rule hc_nan_where_first_layer_nan)
  with h show ?thesis by simp
qed

text \<open>The theorem at the bundle whose layer \<open>AG\<close> is NaN at the first gate.\<close>

theorem hc_nan_where_ag_nan_witness:
  "read_mxpol_rhi_with_hc mx_globals mx_loadmat mx_dataset ''rhi.nc'' ''nan.mat''
     = Inr (projr (read_mxpol_rhi_with_hc mx_globals mx_loadmat mx_dataset ''rhi.nc'' ''nan.mat''))
   \<and> mx_loadmat ''nan.mat'' = Inr hc_ag_nan
   \<and> distinct (map fst hc_ag_nan)
   \<and> map_of hc_ag_nan ''AG'' = Some \<lparr>ncols = 2, rows = [[NaN, Fin 0.3]]\<rparr>
   \<and> isnan (at2 \<lparr>ncols = 2, rows = [[NaN, Fin 0.3]]\<rparr> 0 0)
   \<and> (\<exists>hc. radar_fields (projr (read_mxpol_rhi_with_hc mx_globals mx_loadmat mx_dataset
                                   ''rhi.nc'' ''nan.mat'')) ''HC'' = Some hc
          \<and> at2 (f_data hc) 0 0 = NaN)"
proof -
  let ?ag = "\<lparr>ncols = 2, rows = [[NaN, Fin 0.3]]\<rparr> :: pyfloat arr2"
  have d: "distinct (map fst hc_ag_nan)"
    by (simp add: hc_ag_nan_def)
  have k: "\<forall>k \<in> set (map fst hc_ag_nan). CHR ''_'' \<in> set k \<or> k \<in> set list_str"
    by (simp add: hc_ag_nan_def list_str_def)
  have ag: "map_of hc_ag_nan ''AG'' = Some ?ag"
    by (simp add: hc_ag_nan_def)
  have i: "0 < nrows ?ag" and j: "0 < ncols ?ag" and n: "isnan (at2 ?ag 0 0)"
    by (simp_all add: nrows_def at2_def)
  from hc_nan_where_ag_nan [OF mx_run_nan mx_bun_nan d k ag i j n] mx_run_nan mx_bun_nan d ag n
  show ?thesis by blast
qed

end
